theory Spec2Isabelle
  imports Main
begin

section \<open>The automation rule engine of \<^verbatim>\<open>src/hooks/useAutomations.ts\<close>\<close>

text \<open>
  The engine is embedded function by function. JavaScript values, the built-ins the
  engine calls (\<^verbatim>\<open>Number\<close>, \<^verbatim>\<open>String\<close>, \<^verbatim>\<open>toLowerCase\<close>, \<^verbatim>\<open>trim\<close>,
  \<^verbatim>\<open>includes\<close>) and the effects of the asynchronous functions (remote calls, the
  persisted rule list, the run-lock, local notifications, alerts) are written out.
\<close>

subsection \<open>JavaScript strings\<close>

text \<open>
  A string is a list of code units, and the model has the code units 0 to 255 (Basic
  Latin and Latin-1). There \<^verbatim>\<open>toLowerCase\<close> maps \<^verbatim>\<open>A-Z\<close> and the capitals U+00C0 to
  U+00DE (without the multiplication sign U+00D7) to the letter 32 places on, and the
  white space that \<^verbatim>\<open>trim\<close> and \<^verbatim>\<open>Number\<close> strip is TAB, LF, VT, FF, CR, SPACE and the
  no-break space U+00A0.
\<close>

definition upperChars :: string where
  "upperChars =
     ''ABCDEFGHIJKLMNOPQRSTUVWXYZ'' @
     [CHR 0xC0, CHR 0xC1, CHR 0xC2, CHR 0xC3, CHR 0xC4, CHR 0xC5, CHR 0xC6, CHR 0xC7,
      CHR 0xC8, CHR 0xC9, CHR 0xCA, CHR 0xCB, CHR 0xCC, CHR 0xCD, CHR 0xCE, CHR 0xCF,
      CHR 0xD0, CHR 0xD1, CHR 0xD2, CHR 0xD3, CHR 0xD4, CHR 0xD5, CHR 0xD6, CHR 0xD8,
      CHR 0xD9, CHR 0xDA, CHR 0xDB, CHR 0xDC, CHR 0xDD, CHR 0xDE]"

definition lowerChars :: string where
  "lowerChars =
     ''abcdefghijklmnopqrstuvwxyz'' @
     [CHR 0xE0, CHR 0xE1, CHR 0xE2, CHR 0xE3, CHR 0xE4, CHR 0xE5, CHR 0xE6, CHR 0xE7,
      CHR 0xE8, CHR 0xE9, CHR 0xEA, CHR 0xEB, CHR 0xEC, CHR 0xED, CHR 0xEE, CHR 0xEF,
      CHR 0xF0, CHR 0xF1, CHR 0xF2, CHR 0xF3, CHR 0xF4, CHR 0xF5, CHR 0xF6, CHR 0xF8,
      CHR 0xF9, CHR 0xFA, CHR 0xFB, CHR 0xFC, CHR 0xFD, CHR 0xFE]"

definition lowerChar :: "char \<Rightarrow> char" where
  "lowerChar c = (case map_of (zip upperChars lowerChars) c of None \<Rightarrow> c | Some d \<Rightarrow> d)"

definition toLowerCase :: "string \<Rightarrow> string" where
  "toLowerCase s = map lowerChar s"

definition isWhiteSpace :: "char \<Rightarrow> bool" where
  "isWhiteSpace c = (of_char c \<in> {9, 10, 11, 12, 13, 32, 160 :: nat})"

definition trim :: "string \<Rightarrow> string" where
  "trim s = rev (dropWhile isWhiteSpace (rev (dropWhile isWhiteSpace s)))"

text \<open>\<^verbatim>\<open>a.includes(b)\<close>: \<open>b\<close> occurs in \<open>a\<close> as a contiguous run.\<close>

fun includes_str :: "string \<Rightarrow> string \<Rightarrow> bool" where
  "includes_str [] ys = (ys = [])"
| "includes_str (x # xs) ys = (take (length ys) (x # xs) = ys \<or> includes_str xs ys)"

subsection \<open>JavaScript numbers\<close>

text \<open>
  A number is a binary64 value. A finite one is written \<open>Fin m e\<close>, the decimal
  \<open>m * 10 ^ e\<close> (every binary64 value is such a decimal, in more than one way); \<open>NaN\<close>
  and the two infinities are values of their own, and negative zero is identified with
  zero. \<open>toBinary64\<close> rounds a decimal to the nearest binary64 value, ties to even, with
  overflow to an infinity and underflow through the subnormal numbers to zero.
\<close>

datatype jsnum = Fin int int | NaN | PosInf | NegInf

definition isFinite :: "jsnum \<Rightarrow> bool" where
  "isFinite n = (case n of Fin m e \<Rightarrow> True | _ \<Rightarrow> False)"

text \<open>Two finite numbers are compared after scaling both to the smaller exponent.\<close>

definition scaled :: "int \<Rightarrow> int \<Rightarrow> int \<Rightarrow> int" where
  "scaled m e e0 = m * 10 ^ nat (e - e0)"

fun numEq :: "jsnum \<Rightarrow> jsnum \<Rightarrow> bool" where
  "numEq (Fin m1 e1) (Fin m2 e2) = (scaled m1 e1 (min e1 e2) = scaled m2 e2 (min e1 e2))"
| "numEq NaN _ = False"
| "numEq _ NaN = False"
| "numEq PosInf PosInf = True"
| "numEq NegInf NegInf = True"
| "numEq _ _ = False"

fun numLess :: "jsnum \<Rightarrow> jsnum \<Rightarrow> bool" where
  "numLess (Fin m1 e1) (Fin m2 e2) = (scaled m1 e1 (min e1 e2) < scaled m2 e2 (min e1 e2))"
| "numLess NaN _ = False"
| "numLess _ NaN = False"
| "numLess PosInf _ = False"
| "numLess _ PosInf = True"
| "numLess _ NegInf = False"
| "numLess NegInf _ = True"

definition numLessEq :: "jsnum \<Rightarrow> jsnum \<Rightarrow> bool" where
  "numLessEq a b = (numLess a b \<or> numEq a b)"

definition negate :: "jsnum \<Rightarrow> jsnum" where
  "negate n = (case n of Fin m e \<Rightarrow> Fin (- m) e | NaN \<Rightarrow> NaN | PosInf \<Rightarrow> NegInf | NegInf \<Rightarrow> PosInf)"

subsubsection \<open>Rounding to binary64\<close>

text \<open>The number of binary digits of a positive integer.\<close>

function bitLength :: "int \<Rightarrow> int" where
  "bitLength n = (if n \<le> 0 then 0 else 1 + bitLength (n div 2))"
  by pat_completeness auto
termination
  by (relation "measure nat") auto

declare bitLength.simps [simp del]

text \<open>Trailing zeros of a mantissa move into the exponent.\<close>

function stripZeros :: "int \<Rightarrow> int \<Rightarrow> int \<times> int" where
  "stripZeros s e = (if s \<noteq> 0 \<and> s mod 10 = 0 then stripZeros (s div 10) (e + 1) else (s, e))"
  by pat_completeness auto
termination
  by (relation "measure (\<lambda>(s, e). nat \<bar>s\<bar>)") auto

declare stripZeros.simps [simp del]

text \<open>The quotient \<open>n / d\<close> of two positive integers, rounded to the nearest integer, ties to even.\<close>

definition roundHalfEven :: "int \<Rightarrow> int \<Rightarrow> int" where
  "roundHalfEven n d =
     (let q = n div d; r = n mod d
      in if 2 * r > d \<or> (2 * r = d \<and> odd q) then q + 1 else q)"

text \<open>
  The decimal \<open>m * 10 ^ e\<close> is the fraction \<open>num / den\<close> up to its sign, and \<open>ex\<close> is the
  exponent of its leading binary digit. The result is \<open>n * 2 ^ p\<close>, where \<open>2 ^ p\<close> is the
  distance of neighbouring binary64 values at that magnitude (\<open>2 ^ - 1074\<close> for the
  subnormal numbers). The largest binary64 value is \<open>(2 ^ 53 - 1) * 2 ^ 971\<close>; what
  rounds beyond it is an infinity.
\<close>

definition toBinary64 :: "int \<Rightarrow> int \<Rightarrow> jsnum" where
  "toBinary64 m e =
     (if m = 0 then Fin 0 0
      else
        let a = \<bar>m\<bar>;
            num = (if e \<ge> 0 then a * 10 ^ nat e else a);
            den = (if e \<ge> 0 then 1 else 10 ^ nat (- e));
            e0 = bitLength num - bitLength den;
            ex = (if (if e0 \<ge> 0 then num \<ge> den * 2 ^ nat e0 else num * 2 ^ nat (- e0) \<ge> den)
                  then e0 else e0 - 1);
            p = max ex (- 1022) - 52;
            n = (if p \<ge> 0 then roundHalfEven num (den * 2 ^ nat p)
                 else roundHalfEven (num * 2 ^ nat (- p)) den)
        in if p > 971 \<or> (p = 971 \<and> n \<ge> 2 ^ 53) then (if m < 0 then NegInf else PosInf)
           else if n = 0 then Fin 0 0
           else
             (let (s, e1) = (if p \<ge> 0 then stripZeros (n * 2 ^ nat p) 0
                             else stripZeros (n * 5 ^ nat (- p)) p)
              in if m < 0 then Fin (- s) e1 else Fin s e1))"

definition roundNumber :: "jsnum \<Rightarrow> jsnum" where
  "roundNumber n = (case n of Fin m e \<Rightarrow> toBinary64 m e | _ \<Rightarrow> n)"

subsubsection \<open>\<^verbatim>\<open>Number(string)\<close>\<close>

text \<open>
  The grammar of a numeric string: optional white space around an optionally signed
  \<^verbatim>\<open>Infinity\<close> or decimal literal (digits, fraction, exponent), or an unsigned
  binary, octal or hexadecimal integer; the empty string is 0 and everything else
  is \<^verbatim>\<open>NaN\<close>. \<open>numericLiteral\<close> is the mathematical value of the string and
  \<open>Number_str\<close> the binary64 value it is rounded to.
\<close>

definition hexVal :: "char \<Rightarrow> nat option" where
  "hexVal c =
     map_of (zip ''0123456789abcdefABCDEF''
                 [0, 1, 2, 3, 4, 5, 6, 7, 8, 9, 10, 11, 12, 13, 14, 15, 10, 11, 12, 13, 14, 15]) c"

definition isDigitIn :: "nat \<Rightarrow> char \<Rightarrow> bool" where
  "isDigitIn base c = (case hexVal c of None \<Rightarrow> False | Some v \<Rightarrow> v < base)"

definition digitsVal :: "nat \<Rightarrow> string \<Rightarrow> int" where
  "digitsVal base ds =
     foldl (\<lambda>acc c. acc * int base + (case hexVal c of None \<Rightarrow> 0 | Some v \<Rightarrow> int v)) 0 ds"

definition exponentPart :: "string \<Rightarrow> int option" where
  "exponentPart r =
     (case r of
        [] \<Rightarrow> Some 0
      | c # r1 \<Rightarrow>
          if c = CHR ''e'' \<or> c = CHR ''E'' then
            (let neg = (case r1 of [] \<Rightarrow> False | s # _ \<Rightarrow> s = CHR ''-'');
                 ds = (case r1 of [] \<Rightarrow> []
                       | s # r2 \<Rightarrow> if s = CHR ''+'' \<or> s = CHR ''-'' then r2 else r1)
             in if ds \<noteq> [] \<and> list_all (isDigitIn 10) ds
                then Some (if neg then - digitsVal 10 ds else digitsVal 10 ds)
                else None)
          else None)"

definition strUnsignedDecimal :: "string \<Rightarrow> jsnum" where
  "strUnsignedDecimal s =
     (if s = ''Infinity'' then PosInf
      else
        let ip = takeWhile (isDigitIn 10) s;
            r1 = dropWhile (isDigitIn 10) s;
            dot = (case r1 of [] \<Rightarrow> False | c # _ \<Rightarrow> c = CHR ''.'');
            fp = (if dot then takeWhile (isDigitIn 10) (tl r1) else []);
            r2 = (if dot then dropWhile (isDigitIn 10) (tl r1) else r1)
        in if ip = [] \<and> fp = [] then NaN
           else (case exponentPart r2 of
                   None \<Rightarrow> NaN
                 | Some ex \<Rightarrow> Fin (digitsVal 10 (ip @ fp)) (ex - int (length fp))))"

definition nonDecimal :: "string \<Rightarrow> jsnum option" where
  "nonDecimal s =
     (case s of
        z # p # ds \<Rightarrow>
          if z = CHR ''0'' \<and> ds \<noteq> [] then
            (let base = (if p = CHR ''x'' \<or> p = CHR ''X'' then 16
                         else if p = CHR ''o'' \<or> p = CHR ''O'' then 8
                         else if p = CHR ''b'' \<or> p = CHR ''B'' then 2 else 0)
             in if base \<noteq> 0 \<and> list_all (isDigitIn base) ds
                then Some (Fin (digitsVal base ds) 0) else None)
          else None
      | _ \<Rightarrow> None)"

definition numericLiteral :: "string \<Rightarrow> jsnum" where
  "numericLiteral raw =
     (let s = trim raw in
      if s = [] then Fin 0 0
      else (case nonDecimal s of
              Some n \<Rightarrow> n
            | None \<Rightarrow>
                (case s of
                   c # r \<Rightarrow>
                     if c = CHR ''+'' then strUnsignedDecimal r
                     else if c = CHR ''-'' then negate (strUnsignedDecimal r)
                     else strUnsignedDecimal s
                 | [] \<Rightarrow> NaN)))"

definition Number_str :: "string \<Rightarrow> jsnum" where
  "Number_str raw = roundNumber (numericLiteral raw)"

subsubsection \<open>\<^verbatim>\<open>String(number)\<close>\<close>

definition digitChar :: "int \<Rightarrow> char" where
  "digitChar d = ''0123456789'' ! nat d"

function digitsOf :: "int \<Rightarrow> string" where
  "digitsOf n = (if n < 10 then [digitChar n] else digitsOf (n div 10) @ [digitChar (n mod 10)])"
  by pat_completeness auto
termination
  by (relation "measure nat") auto

declare digitsOf.simps [simp del]

definition string_of_nat :: "nat \<Rightarrow> string" where
  "string_of_nat n = digitsOf (int n)"

definition string_of_int :: "int \<Rightarrow> string" where
  "string_of_int i = (if i < 0 then CHR ''-'' # digitsOf (- i) else digitsOf i)"

text \<open>
  The text of a number has the fewest digits that still read back as the same binary64
  value. For \<open>k\<close> digits, the two \<open>k\<close>-digit decimals around \<open>m * 10 ^ e\<close> are \<open>lo\<close> and
  \<open>hi\<close> units of \<open>10 ^ t\<close>; of those that round to the number the nearer one is taken,
  the even one on a tie.
\<close>

definition candidate :: "int \<Rightarrow> int \<Rightarrow> int \<Rightarrow> (int \<times> int) option" where
  "candidate k m e =
     (let n = int (length (digitsOf m)) + e;
          t = n - k;
          lo = (if t \<le> e then m * 10 ^ nat (e - t) else m div 10 ^ nat (t - e));
          hi = lo + 1;
          okLo = numEq (toBinary64 lo t) (Fin m e);
          okHi = numEq (toBinary64 hi t) (Fin m e);
          u = min e t;
          dLo = scaled m e u - scaled lo t u;
          dHi = scaled hi t u - scaled m e u
      in if okLo \<and> okHi
         then (if dLo < dHi \<or> (dLo = dHi \<and> even lo) then Some (lo, t) else Some (hi, t))
         else if okLo then Some (lo, t)
         else if okHi then Some (hi, t)
         else None)"

text \<open>Seventeen digits identify every binary64 value.\<close>

fun shortestFrom :: "nat \<Rightarrow> int \<Rightarrow> int \<Rightarrow> int \<Rightarrow> int \<times> int" where
  "shortestFrom 0 k m e = (m, e)"
| "shortestFrom (Suc fuel) k m e =
     (case candidate k m e of Some d \<Rightarrow> d | None \<Rightarrow> shortestFrom fuel (k + 1) m e)"

text \<open>
  The digits \<open>ds\<close> of the shortest decimal, their number \<open>k\<close> and the position \<open>n\<close> of
  the decimal point select one of the four layouts of \<^verbatim>\<open>Number.prototype.toString\<close>.
\<close>

definition renderPositive :: "int \<Rightarrow> int \<Rightarrow> string" where
  "renderPositive m e =
     (let (m1, e0) = shortestFrom 17 1 m e;
          (s, e1) = stripZeros m1 e0;
          ds = digitsOf s;
          k = int (length ds);
          n = k + e1
      in if k \<le> n \<and> n \<le> 21 then ds @ replicate (nat (n - k)) CHR ''0''
         else if 0 < n \<and> n \<le> 21 then take (nat n) ds @ ''.'' @ drop (nat n) ds
         else if - 6 < n \<and> n \<le> 0 then ''0.'' @ replicate (nat (- n)) CHR ''0'' @ ds
         else
           (let ex = n - 1;
                tail = ''e'' @ (if ex < 0 then ''-'' else ''+'') @ digitsOf \<bar>ex\<bar>
            in if k = 1 then ds @ tail else take 1 ds @ ''.'' @ drop 1 ds @ tail))"

definition String_num :: "jsnum \<Rightarrow> string" where
  "String_num n =
     (case n of
        NaN \<Rightarrow> ''NaN''
      | PosInf \<Rightarrow> ''Infinity''
      | NegInf \<Rightarrow> ''-Infinity''
      | Fin m e \<Rightarrow>
          if m = 0 then ''0''
          else if m < 0 then CHR ''-'' # renderPositive (- m) e
          else renderPositive m e)"

subsection \<open>Data model (\<^verbatim>\<open>types/torbox\<close> and \<^verbatim>\<open>AutomationTarget\<close>)\<close>

datatype AutomationSource = Torrent | Usenet | Web

text \<open>The scope \<^verbatim>\<open>'all'\<close> is \<open>All\<close>; \<^verbatim>\<open>'torrent'\<close>, \<^verbatim>\<open>'usenet'\<close> and \<^verbatim>\<open>'web'\<close> are \<open>Only\<close> that source.\<close>

datatype TorBoxRuleScope = All | Only AutomationSource

datatype TorBoxRuleConditionField =
    Progress | Eta | Current_download_speed | Average_download_speed
  | Download_stalled_time | Upload_stalled_time | Seeding_ratio | Peers | Age | Tracker
  | Availability | Status | Download_type | Name_contains | Size

datatype TorBoxRuleOperator =
    Equals | Not_equals | Greater_than | Less_than
  | Greater_than_or_equal | Less_than_or_equal | Contains

datatype TorBoxRuleAction =
    Delete_download | Pause_download | Resume_download | Reannounce_torrent
  | Request_download_link | Create_stream | Notify_user

record TorBoxRuleCondition =
  field :: TorBoxRuleConditionField
  operator :: TorBoxRuleOperator
  value' :: string

text \<open>
  Timestamps (\<^verbatim>\<open>createdAt\<close>, \<^verbatim>\<open>lastRunAt\<close>) are held as the time value in
  milliseconds that \<^verbatim>\<open>new Date(s).getTime()\<close> reads from the ISO string; a target's
  \<open>createdAt\<close> is \<open>None\<close> when its string is not a date (the time value is NaN).
  Identifiers are whole numbers.
\<close>

record TorBoxNotification =
  id' :: string
  title :: string
  message :: string
  createdAt :: int
  read :: bool

record AutomationTarget =
  source :: AutomationSource
  sourceId :: int
  name :: string
  progress :: jsnum
  eta :: jsnum
  downloadSpeed :: jsnum
  downloadState :: string
  peers :: jsnum
  ratio :: jsnum
  availability :: jsnum
  createdAt :: "int option"
  tracker :: "string option"
  stalledMinutes :: jsnum
  fileIds :: "int list"
  size' :: jsnum

record TorBoxRulePreset =
  id' :: string
  name :: string
  description :: string
  checkIntervalMinutes :: int
  conditions :: "TorBoxRuleCondition list"
  action :: TorBoxRuleAction
  actionValue :: "string option"
  scope :: "TorBoxRuleScope option"
  isDangerous :: "bool option"
  category :: string

text \<open>The parameter object of \<^verbatim>\<open>createCustomRule\<close> and the partial object of \<^verbatim>\<open>updateRule\<close>.\<close>

record CustomRuleParams =
  name :: string
  checkIntervalMinutes :: int
  conditions :: "TorBoxRuleCondition list"
  action :: TorBoxRuleAction
  actionValue :: "string option"
  scope :: "TorBoxRuleScope option"

record RuleUpdates =
  name :: "string option"
  checkIntervalMinutes :: "int option"
  conditions :: "TorBoxRuleCondition list option"
  action :: "TorBoxRuleAction option"
  actionValue :: "string option"
  scope :: "TorBoxRuleScope option"

record TorBoxRule =
  id' :: string
  name :: string
  enabled :: bool
  checkIntervalMinutes :: int
  conditions :: "TorBoxRuleCondition list"
  action :: TorBoxRuleAction
  actionValue :: "string option"
  scope :: "TorBoxRuleScope option"
  isDangerous :: "bool option"
  isCustom :: "bool option"
  lastRunAt :: "int option"
  lastResult :: "string option"
  runCount :: int
  createdAt :: int

subsection \<open>Presets and rule construction\<close>

text \<open>
  The object literals of the preset table are written with two constructors, \<open>cond\<close>
  for a condition and \<open>preset\<close> for a preset; no preset of the table has an
  \<^verbatim>\<open>actionValue\<close>.
\<close>

definition cond :: "TorBoxRuleConditionField \<Rightarrow> TorBoxRuleOperator \<Rightarrow> string \<Rightarrow> TorBoxRuleCondition" where
  "cond f ope v = \<lparr>field = f, operator = ope, value' = v\<rparr>"

definition preset ::
  "string \<Rightarrow> string \<Rightarrow> string \<Rightarrow> int \<Rightarrow> TorBoxRuleCondition list \<Rightarrow> TorBoxRuleAction \<Rightarrow>
   TorBoxRuleScope option \<Rightarrow> bool option \<Rightarrow> string \<Rightarrow> TorBoxRulePreset" where
  "preset i n d m cs a sc dg cat =
     \<lparr>TorBoxRulePreset.id' = i, TorBoxRulePreset.name = n, description = d,
      TorBoxRulePreset.checkIntervalMinutes = m, TorBoxRulePreset.conditions = cs,
      TorBoxRulePreset.action = a, TorBoxRulePreset.actionValue = None,
      TorBoxRulePreset.scope = sc, TorBoxRulePreset.isDangerous = dg, category = cat\<rparr>"

definition TORBOX_RULE_PRESETS :: "TorBoxRulePreset list" where
  "TORBOX_RULE_PRESETS =
   [preset ''pause_stalled_downloads'' ''Pause stalled downloads''
      ''Pauses active items stalled for more than 20 minutes.'' 10
      [cond Download_stalled_time Greater_than ''20''] Pause_download None None ''transfer'',
    preset ''resume_when_progress_seen'' ''Resume paused downloads''
      ''Resumes paused downloads automatically.'' 10
      [cond Status Equals ''paused''] Resume_download None None ''transfer'',
    preset ''reannounce_stalled_torrents'' ''Reannounce stalled torrents''
      ''Reannounces stalled torrents to refresh trackers.'' 15
      [cond Download_stalled_time Greater_than ''15''] Reannounce_torrent (Some (Only Torrent)) None
      ''maintenance'',
    preset ''completed_notify'' ''Notify on completion''
      ''Creates a local notification when an item reaches 100%.'' 5
      [cond Progress Equals ''100''] Notify_user None None ''completion'',
    preset ''notify_errors'' ''Notify on failed downloads''
      ''Creates a local notification when a download enters error state.'' 5
      [cond Status Equals ''error''] Notify_user None None ''transfer'',
    preset ''completed_get_link'' ''Auto-generate download link''
      ''Requests a download link when item completes.'' 10
      [cond Progress Equals ''100''] Request_download_link None None ''completion'',
    preset ''stream_ready_media'' ''Create stream links for completed media''
      ''Requests stream links for completed items.'' 15
      [cond Progress Equals ''100''] Create_stream None None ''playback'',
    preset ''delete_very_old_completed'' ''Delete very old completed''
      ''Deletes completed downloads older than 60 days. DANGEROUS.'' 1440
      [cond Age Greater_than ''60'', cond Progress Equals ''100''] Delete_download None (Some True)
      ''completion'',
    preset ''auto_delete_old_failed'' ''Auto-delete old failed downloads''
      ''Deletes failed downloads older than 7 days. DANGEROUS.'' 1440
      [cond Status Equals ''error'', cond Age Greater_than ''7''] Delete_download None (Some True)
      ''completion'',
    preset ''pause_high_eta_downloads'' ''Pause very long ETA downloads''
      ''Pauses items with ETA above 2 days (172800s).'' 20
      [cond Eta Greater_than ''172800''] Pause_download None None ''transfer'',
    preset ''resume_stalled_items'' ''Resume stalled transfers''
      ''Resumes stalled transfers to kick progress.'' 15
      [cond Status Contains ''stalled''] Resume_download None None ''transfer'',
    preset ''notify_slow_downloads'' ''Notify on slow downloads''
      ''Sends notification when download speed drops below 10KB/s.'' 10
      [cond Current_download_speed Less_than ''10240'', cond Status Contains ''download'']
      Notify_user None None ''transfer'',
    preset ''generate_links_for_cached'' ''Generate links for cached items''
      ''Requests download links for cached/completed items.'' 30
      [cond Status Contains ''cached''] Request_download_link None None ''completion'',
    preset ''stream_ready_cached'' ''Create stream links for cached items''
      ''Builds stream links for cached/completed files.'' 30
      [cond Status Contains ''cached''] Create_stream None None ''playback'',
    preset ''notify_torrent_tracker_issues'' ''Notify tracker-related stalls''
      ''Notifies when torrent tracker field contains warning text.'' 15
      [cond Tracker Contains ''error''] Notify_user (Some (Only Torrent)) None ''maintenance'']"

definition isActionSupportedForScope :: "TorBoxRuleAction \<Rightarrow> TorBoxRuleScope \<Rightarrow> bool" where
  "isActionSupportedForScope a sc = (\<not> (a = Reannounce_torrent \<and> sc \<noteq> Only Torrent))"

text \<open>\<^verbatim>\<open>x ?? 'all'\<close> on an optional scope.\<close>

definition scopeOrAll :: "TorBoxRuleScope option \<Rightarrow> TorBoxRuleScope" where
  "scopeOrAll sc = (case sc of None \<Rightarrow> All | Some s \<Rightarrow> s)"

definition createRuleFromPreset :: "int \<Rightarrow> TorBoxRulePreset \<Rightarrow> TorBoxRule" where
  "createRuleFromPreset now p =
     \<lparr>id' = ''rule_'' @ TorBoxRulePreset.id' p @ ''_'' @ string_of_int now,
      name = TorBoxRulePreset.name p,
      enabled = False,
      checkIntervalMinutes = TorBoxRulePreset.checkIntervalMinutes p,
      conditions = TorBoxRulePreset.conditions p,
      action = TorBoxRulePreset.action p,
      actionValue = TorBoxRulePreset.actionValue p,
      scope = Some (scopeOrAll (TorBoxRulePreset.scope p)),
      isDangerous = TorBoxRulePreset.isDangerous p,
      isCustom = Some False,
      lastRunAt = None,
      lastResult = None,
      runCount = 0,
      createdAt = now\<rparr>"

subsection \<open>Predicate evaluator: \<^verbatim>\<open>compareValues\<close> and \<^verbatim>\<open>matchesRule\<close>\<close>

text \<open>A value of type \<^verbatim>\<open>number | string\<close>, with the coercions and \<^verbatim>\<open>===\<close>.\<close>

datatype jsval = Num jsnum | Str string

definition isNum :: "jsval \<Rightarrow> bool" where
  "isNum v = (case v of Num n \<Rightarrow> True | Str s \<Rightarrow> False)"

definition Number_val :: "jsval \<Rightarrow> jsnum" where
  "Number_val v = (case v of Num n \<Rightarrow> n | Str s \<Rightarrow> Number_str s)"

definition String_val :: "jsval \<Rightarrow> string" where
  "String_val v = (case v of Num n \<Rightarrow> String_num n | Str s \<Rightarrow> s)"

fun strictEq :: "jsval \<Rightarrow> jsval \<Rightarrow> bool" where
  "strictEq (Num a) (Num b) = numEq a b"
| "strictEq (Str a) (Str b) = (a = b)"
| "strictEq _ _ = False"

text \<open>
  The operator is one of the seven of \<^verbatim>\<open>TorBoxRuleOperator\<close>, so the \<^verbatim>\<open>default\<close>
  branch of the \<^verbatim>\<open>switch\<close> has no case here.
\<close>

definition compareValues :: "jsval \<Rightarrow> string \<Rightarrow> TorBoxRuleOperator \<Rightarrow> bool" where
  "compareValues left rightRaw ope =
     (let rightNum = Number_str rightRaw;
          leftNum = (case left of Num n \<Rightarrow> n | Str s \<Rightarrow> Number_str s);
          right = (if isFinite rightNum then Num rightNum else Str (toLowerCase rightRaw));
          l = (if isFinite leftNum \<and> isNum right then Num leftNum
               else Str (toLowerCase (String_val left)))
      in case ope of
           Equals \<Rightarrow> strictEq l right
         | Not_equals \<Rightarrow> \<not> strictEq l right
         | Greater_than \<Rightarrow> numLess (Number_val right) (Number_val l)
         | Less_than \<Rightarrow> numLess (Number_val l) (Number_val right)
         | Greater_than_or_equal \<Rightarrow> numLessEq (Number_val right) (Number_val l)
         | Less_than_or_equal \<Rightarrow> numLessEq (Number_val l) (Number_val right)
         | Contains \<Rightarrow> includes_str (String_val l) (String_val right))"

definition sourceName :: "AutomationSource \<Rightarrow> string" where
  "sourceName s = (case s of Torrent \<Rightarrow> ''torrent'' | Usenet \<Rightarrow> ''usenet'' | Web \<Rightarrow> ''web'')"

text \<open>\<^verbatim>\<open>Math.floor((Date.now() - new Date(target.createdAt).getTime()) / 86400000)\<close>.\<close>

definition ageDays :: "int \<Rightarrow> AutomationTarget \<Rightarrow> jsnum" where
  "ageDays now t =
     (case AutomationTarget.createdAt t of
        None \<Rightarrow> NaN
      | Some c \<Rightarrow> Fin ((now - c) div 86400000) 0)"

definition fieldMap :: "int \<Rightarrow> AutomationTarget \<Rightarrow> TorBoxRuleConditionField \<Rightarrow> jsval" where
  "fieldMap now t f =
     (case f of
        Progress \<Rightarrow> Num (progress t)
      | Eta \<Rightarrow> Num (eta t)
      | Current_download_speed \<Rightarrow> Num (downloadSpeed t)
      | Average_download_speed \<Rightarrow> Num (downloadSpeed t)
      | Download_stalled_time \<Rightarrow> Num (stalledMinutes t)
      | Upload_stalled_time \<Rightarrow> Num (stalledMinutes t)
      | Seeding_ratio \<Rightarrow> Num (ratio t)
      | Peers \<Rightarrow> Num (peers t)
      | Age \<Rightarrow> Num (ageDays now t)
      | Tracker \<Rightarrow> Str (case tracker t of None \<Rightarrow> [] | Some s \<Rightarrow> s)
      | Availability \<Rightarrow> Num (availability t)
      | Status \<Rightarrow> Str (downloadState t)
      | Download_type \<Rightarrow> Str (sourceName (source t))
      | Name_contains \<Rightarrow> Str (AutomationTarget.name t)
      | Size \<Rightarrow> Num (size' t))"

text \<open>The callback of \<^verbatim>\<open>rule.conditions.every\<close>.\<close>

definition conditionHolds :: "int \<Rightarrow> AutomationTarget \<Rightarrow> TorBoxRuleCondition \<Rightarrow> bool" where
  "conditionHolds now t c =
     (if trim (value' c) = [] then True
      else compareValues (fieldMap now t (field c)) (value' c) (operator c))"

definition matchesRule :: "int \<Rightarrow> TorBoxRule \<Rightarrow> AutomationTarget \<Rightarrow> bool" where
  "matchesRule now rule t =
     (case scope rule of
        Some (Only s) \<Rightarrow> if source t \<noteq> s then False else list_all (conditionHolds now t) (conditions rule)
      | _ \<Rightarrow> list_all (conditionHolds now t) (conditions rule))"

subsection \<open>Effects: the remote service, storage and the hook's state\<close>

text \<open>
  A thrown value is an \<^verbatim>\<open>Error\<close> with its message, or something else
  (\<^verbatim>\<open>err instanceof Error ? err.message : 'Execution failed'\<close>).
\<close>

datatype thrown = Error string | NonError

datatype control_op = Pause | Resume | Reannounce

text \<open>
  The calls the engine makes on \<^verbatim>\<open>torboxApi\<close>; \<open>ToTargets\<close> stands for the three list
  requests of \<^verbatim>\<open>toTargets\<close>, which are awaited together.
\<close>

datatype api_call =
    ToTargets
  | ControlTorrent int control_op
  | ControlUsenet int control_op
  | ControlWebDownload int control_op
  | DeleteItem AutomationSource int
  | GetDownloadLink AutomationSource int int
  | GetStreamLink AutomationSource int int

text \<open>
  What the outside answers during one call of the hook: the clock, whether each remote
  call rejects (\<open>Some\<close> the thrown value) or resolves, the outcome of \<^verbatim>\<open>toTargets\<close>,
  whether the storage operations fail, the random part of a notification id, and the
  button the user presses in a confirmation dialog.
\<close>

record env =
  now :: int
  api :: "api_call \<Rightarrow> thrown option"
  fetched :: "thrown + AutomationTarget list"
  rulesSaveFails :: bool
  notificationsReadFails :: bool
  notificationsSaveFails :: "thrown option"
  random :: string
  confirmed :: bool

text \<open>
  The state the hook reads and writes: the React state \<open>rules\<close>, the rule list in
  \<^verbatim>\<open>AsyncStorage\<close>, \<^verbatim>\<open>runLockRef.current\<close>, the remote calls made so far in order,
  the stored local notifications and the alerts shown.
\<close>

record world =
  rules :: "TorBoxRule list"
  storedRules :: "TorBoxRule list"
  runLock :: "string set"
  calls :: "api_call list"
  notifications :: "TorBoxNotification list"
  alerts :: "(string \<times> string) list"

definition MAX_NOTIFICATIONS :: nat where
  "MAX_NOTIFICATIONS = 200"

definition callApi :: "env \<Rightarrow> api_call \<Rightarrow> world \<Rightarrow> thrown option \<times> world" where
  "callApi ev c w = (api ev c, w\<lparr>calls := calls w @ [c]\<rparr>)"

definition alert :: "string \<Rightarrow> string \<Rightarrow> world \<Rightarrow> world" where
  "alert t m w = w\<lparr>alerts := alerts w @ [(t, m)]\<rparr>"

text \<open>
  \<^verbatim>\<open>appendAppNotification\<close>: \<^verbatim>\<open>getAppNotifications\<close> answers the empty list when the read
  fails; a failing \<^verbatim>\<open>setItem\<close> is not caught.
\<close>

definition appendAppNotification :: "env \<Rightarrow> string \<Rightarrow> string \<Rightarrow> world \<Rightarrow> (thrown + TorBoxNotification) \<times> world" where
  "appendAppNotification ev t m w =
     (let notification =
            \<lparr>TorBoxNotification.id' = ''local-'' @ string_of_int (now ev) @ ''-'' @ random ev,
             title = t, message = m, TorBoxNotification.createdAt = now ev, read = False\<rparr>;
          existing = (if notificationsReadFails ev then [] else notifications w);
          next = take MAX_NOTIFICATIONS (notification # existing)
      in case notificationsSaveFails ev of
           Some e \<Rightarrow> (Inl e, w)
         | None \<Rightarrow> (Inr notification, w\<lparr>notifications := next\<rparr>))"

text \<open>\<^verbatim>\<open>persistRules\<close>: \<^verbatim>\<open>setRules\<close>, then a save whose failure is caught and logged.\<close>

definition persistRules :: "env \<Rightarrow> TorBoxRule list \<Rightarrow> world \<Rightarrow> world" where
  "persistRules ev newRules w =
     w\<lparr>rules := newRules,
       storedRules := (if rulesSaveFails ev then storedRules w else newRules)\<rparr>"

subsection \<open>Action executor: \<^verbatim>\<open>executeAction\<close>\<close>

text \<open>
  An awaited remote call inside the loop: when it rejects, the exception leaves the loop
  (\<open>Inl\<close>); otherwise the statements after it run and \<open>affected++\<close> is reached (\<open>Inr True\<close>).
\<close>

definition awaitCall :: "env \<Rightarrow> api_call \<Rightarrow> world \<Rightarrow> (thrown + bool) \<times> world" where
  "awaitCall ev c w =
     (case callApi ev c w of
        (Some e, w1) \<Rightarrow> (Inl e, w1)
      | (None, w1) \<Rightarrow> (Inr True, w1))"

text \<open>\<^verbatim>\<open>target.fileIds[0]\<close> with the test \<^verbatim>\<open>if (!fileId) break\<close>: a missing id and the id 0 are falsy.\<close>

definition firstFileId :: "AutomationTarget \<Rightarrow> int option" where
  "firstFileId t = (case fileIds t of [] \<Rightarrow> None | f # _ \<Rightarrow> if f = 0 then None else Some f)"

text \<open>
  One iteration of the loop, the \<^verbatim>\<open>switch\<close> on \<^verbatim>\<open>rule.action\<close>: the result says
  whether \<open>affected\<close> was incremented.
\<close>

definition performAction :: "env \<Rightarrow> TorBoxRule \<Rightarrow> AutomationTarget \<Rightarrow> world \<Rightarrow> (thrown + bool) \<times> world" where
  "performAction ev rule t w =
     (case action rule of
        Pause_download \<Rightarrow>
          (case source t of
             Torrent \<Rightarrow> awaitCall ev (ControlTorrent (sourceId t) Pause) w
           | Usenet \<Rightarrow> awaitCall ev (ControlUsenet (sourceId t) Pause) w
           | Web \<Rightarrow> awaitCall ev (ControlWebDownload (sourceId t) Pause) w)
      | Resume_download \<Rightarrow>
          (case source t of
             Torrent \<Rightarrow> awaitCall ev (ControlTorrent (sourceId t) Resume) w
           | Usenet \<Rightarrow> awaitCall ev (ControlUsenet (sourceId t) Resume) w
           | Web \<Rightarrow> awaitCall ev (ControlWebDownload (sourceId t) Resume) w)
      | Reannounce_torrent \<Rightarrow>
          (if source t = Torrent then awaitCall ev (ControlTorrent (sourceId t) Reannounce) w
           else (Inr False, w))
      | Delete_download \<Rightarrow> awaitCall ev (DeleteItem (source t) (sourceId t)) w
      | Request_download_link \<Rightarrow>
          (case firstFileId t of
             None \<Rightarrow> (Inr False, w)
           | Some fileId \<Rightarrow> awaitCall ev (GetDownloadLink (source t) (sourceId t) fileId) w)
      | Create_stream \<Rightarrow>
          (case firstFileId t of
             None \<Rightarrow> (Inr False, w)
           | Some fileId \<Rightarrow> awaitCall ev (GetStreamLink (source t) (sourceId t) fileId) w)
      | Notify_user \<Rightarrow> (Inr True, w))"

text \<open>The \<^verbatim>\<open>for\<close> loop over the targets, with the counter \<open>affected\<close>.\<close>

fun actionLoop :: "env \<Rightarrow> TorBoxRule \<Rightarrow> AutomationTarget list \<Rightarrow> nat \<Rightarrow> world \<Rightarrow> (thrown + nat) \<times> world" where
  "actionLoop ev rule [] affected w = (Inr affected, w)"
| "actionLoop ev rule (t # ts) affected w =
     (case performAction ev rule t w of
        (Inl e, w1) \<Rightarrow> (Inl e, w1)
      | (Inr counted, w1) \<Rightarrow> actionLoop ev rule ts (if counted then affected + 1 else affected) w1)"

definition itemsText :: "nat \<Rightarrow> string" where
  "itemsText affected = string_of_nat affected @ '' item'' @ (if affected = 1 then [] else ''s'') @ ''.''"

definition executeAction :: "env \<Rightarrow> TorBoxRule \<Rightarrow> AutomationTarget list \<Rightarrow> world \<Rightarrow> (thrown + string) \<times> world" where
  "executeAction ev rule targets w =
     (if targets = [] then (Inr ''No matching downloads found.'', w)
      else
        (case actionLoop ev rule targets 0 w of
           (Inl e, w1) \<Rightarrow> (Inl e, w1)
         | (Inr affected, w1) \<Rightarrow>
             if affected > 0 then
               (case appendAppNotification ev ''Automation ran''
                       (name rule @ '' processed '' @ itemsText affected) w1 of
                  (Inl e, w2) \<Rightarrow> (Inl e, w2)
                | (Inr n, w2) \<Rightarrow> (Inr (''Processed '' @ itemsText affected), w2))
             else (Inr ''No supported items matched this action.'', w1)))"

subsection \<open>Scheduler: \<^verbatim>\<open>runRule\<close>, the poll timer and \<^verbatim>\<open>runNow\<close>\<close>

datatype trigger = Manual | Poll

text \<open>\<^verbatim>\<open>rules.map(r => r.id === rule.id ? { ...r, lastRunAt, runCount: r.runCount + 1, lastResult } : r)\<close>.\<close>

definition recordRun :: "string \<Rightarrow> int \<Rightarrow> string \<Rightarrow> TorBoxRule list \<Rightarrow> TorBoxRule list" where
  "recordRun rid t res rs =
     map (\<lambda>r. if id' r = rid
               then r\<lparr>lastRunAt := Some t, runCount := runCount r + 1, lastResult := Some res\<rparr>
               else r) rs"

definition markUnsupported :: "string \<Rightarrow> TorBoxRule list \<Rightarrow> TorBoxRule list" where
  "markUnsupported rid rs =
     map (\<lambda>r. if id' r = rid
               then r\<lparr>lastResult := Some ''Unsupported scope/action combination.'', enabled := False\<rparr>
               else r) rs"

text \<open>
  \<^verbatim>\<open>runRule\<close> is an asynchronous function. Its statements up to the first \<^verbatim>\<open>await\<close> of the
  run run without interruption: the guards and \<^verbatim>\<open>runLockRef.current.add(ruleId)\<close>. This
  is \<open>runRule_enter\<close>, which answers the rule when the run starts. The rest, the
  \<^verbatim>\<open>try\<close>/\<^verbatim>\<open>catch\<close>/\<^verbatim>\<open>finally\<close>, is \<open>runRule_body\<close>; it works on the list \<open>rs\<close>
  that the callback closed over. Other triggers may run between the two.
\<close>

definition runRule_enter :: "env \<Rightarrow> string \<Rightarrow> bool \<Rightarrow> world \<Rightarrow> TorBoxRule option \<times> world" where
  "runRule_enter ev ruleId allowDisabled w =
     (if ruleId \<in> runLock w then (None, w)
      else
        (case find (\<lambda>r. id' r = ruleId) (rules w) of
           None \<Rightarrow> (None, w)
         | Some rule \<Rightarrow>
             if \<not> enabled rule \<and> \<not> allowDisabled then (None, w)
             else if \<not> isActionSupportedForScope (action rule) (scopeOrAll (scope rule))
             then (None, persistRules ev (markUnsupported (id' rule) (rules w)) w)
             else (Some rule, w\<lparr>runLock := insert ruleId (runLock w)\<rparr>)))"

definition triggerLabel :: "trigger \<Rightarrow> string" where
  "triggerLabel tr = (case tr of Manual \<Rightarrow> ''Manual run'' | Poll \<Rightarrow> ''Scheduled run'')"

definition errorMessage :: "thrown \<Rightarrow> string" where
  "errorMessage err = (case err of Error m \<Rightarrow> m | NonError \<Rightarrow> ''Execution failed'')"

text \<open>The body of the \<^verbatim>\<open>try\<close> up to the result of \<^verbatim>\<open>executeAction\<close>.\<close>

definition fetchAndExecute :: "env \<Rightarrow> TorBoxRule \<Rightarrow> world \<Rightarrow> (thrown + string) \<times> world" where
  "fetchAndExecute ev rule w =
     (let w1 = w\<lparr>calls := calls w @ [ToTargets]\<rparr>
      in case fetched ev of
           Inl e \<Rightarrow> (Inl e, w1)
         | Inr ts \<Rightarrow> executeAction ev rule (filter (matchesRule (now ev) rule) ts) w1)"

text \<open>
  What follows once the outcome of the \<^verbatim>\<open>try\<close> block is known: the rest of the block after
  a result, the \<^verbatim>\<open>catch\<close> after an exception, and the \<^verbatim>\<open>finally\<close>.
\<close>

definition settle ::
  "env \<Rightarrow> TorBoxRule list \<Rightarrow> TorBoxRule \<Rightarrow> string \<Rightarrow> trigger \<Rightarrow> (thrown + string) \<times> world \<Rightarrow> world" where
  "settle ev rs rule ruleId tr outcome =
     (let w2 =
        (case outcome of
           (Inr result, w1) \<Rightarrow>
             (let w' = persistRules ev
                         (recordRun (id' rule) (now ev) (triggerLabel tr @ '': '' @ result) rs) w1
              in if tr = Manual then alert ''Rule Executed'' (name rule @ '': '' @ result) w' else w')
         | (Inl err, w1) \<Rightarrow>
             (let message = errorMessage err;
                  w' = persistRules ev (recordRun (id' rule) (now ev) (''Failed: '' @ message) rs) w1
              in if tr = Manual then alert ''Rule Failed'' message w' else w'))
      in w2\<lparr>runLock := runLock w2 - {ruleId}\<rparr>)"

definition runRule_body :: "env \<Rightarrow> TorBoxRule list \<Rightarrow> TorBoxRule \<Rightarrow> string \<Rightarrow> trigger \<Rightarrow> world \<Rightarrow> world" where
  "runRule_body ev rs rule ruleId tr w = settle ev rs rule ruleId tr (fetchAndExecute ev rule w)"

definition runRule :: "env \<Rightarrow> string \<Rightarrow> trigger \<Rightarrow> bool \<Rightarrow> world \<Rightarrow> world" where
  "runRule ev ruleId tr allowDisabled w =
     (case runRule_enter ev ruleId allowDisabled w of
        (None, w1) \<Rightarrow> w1
      | (Some rule, w1) \<Rightarrow> runRule_body ev (rules w) rule ruleId tr w1)"



definition runNow :: "env \<Rightarrow> string \<Rightarrow> world \<Rightarrow> world" where
  "runNow ev ruleId w =
     (case find (\<lambda>r. id' r = ruleId) (rules w) of
        None \<Rightarrow> w
      | Some rule \<Rightarrow>
          if (case lastRunAt rule of None \<Rightarrow> False | Some l \<Rightarrow> now ev - l < 30000)
          then alert ''Throttled'' ''Please wait at least 30 seconds between manual runs.'' w
          else runRule ev ruleId Manual True w)"

subsection \<open>Rule store\<close>

definition quoted :: "string \<Rightarrow> string" where
  "quoted s = [CHR 0x22] @ s @ [CHR 0x22]"

text \<open>
  A dialog with a Cancel and a confirming button is shown, and \<open>confirmed\<close> says which
  one the user presses.
\<close>

definition addRuleFromPreset :: "env \<Rightarrow> string \<Rightarrow> world \<Rightarrow> TorBoxRule option \<times> world" where
  "addRuleFromPreset ev presetId w =
     (case find (\<lambda>p. TorBoxRulePreset.id' p = presetId) TORBOX_RULE_PRESETS of
        None \<Rightarrow> (None, w)
      | Some p \<Rightarrow>
          (let rule = createRuleFromPreset (now ev) p
           in if isDangerous rule = Some True then
                (let w1 = alert ''Dangerous Rule''
                            (quoted (name rule) @ '' can permanently delete data. Add it as disabled draft?'') w
                 in if confirmed ev then (Some rule, persistRules ev (rules w @ [rule]) w1)
                    else (None, w1))
              else (Some rule, persistRules ev (rules w @ [rule]) w)))"

text \<open>
  The action is one of the seven of \<^verbatim>\<open>TorBoxRuleAction\<close>, all of them in
  \<^verbatim>\<open>SUPPORTED_ACTION_SET\<close>, so the first \<^verbatim>\<open>throw\<close> has no case here.
\<close>

definition createCustomRule :: "env \<Rightarrow> CustomRuleParams \<Rightarrow> world \<Rightarrow> (thrown + TorBoxRule) \<times> world" where
  "createCustomRule ev params w =
     (let sc = scopeOrAll (CustomRuleParams.scope params)
      in if \<not> isActionSupportedForScope (CustomRuleParams.action params) sc
         then (Inl (Error ''This action is not supported for the selected scope.''), w)
         else
           (let rule =
                  \<lparr>id' = ''rule_custom_'' @ string_of_int (now ev),
                   name = CustomRuleParams.name params,
                   enabled = False,
                   checkIntervalMinutes = max 1 (CustomRuleParams.checkIntervalMinutes params),
                   conditions = CustomRuleParams.conditions params,
                   action = CustomRuleParams.action params,
                   actionValue = CustomRuleParams.actionValue params,
                   scope = Some sc,
                   isDangerous = Some (CustomRuleParams.action params = Delete_download),
                   isCustom = Some True,
                   lastRunAt = None,
                   lastResult = None,
                   runCount = 0,
                   createdAt = now ev\<rparr>
            in (Inr rule, persistRules ev (rules w @ [rule]) w)))"

definition setEnabled :: "string \<Rightarrow> bool \<Rightarrow> TorBoxRule list \<Rightarrow> TorBoxRule list" where
  "setEnabled rid en rs = map (\<lambda>r. if id' r = rid then r\<lparr>enabled := en\<rparr> else r) rs"

definition toggleRule :: "env \<Rightarrow> string \<Rightarrow> bool \<Rightarrow> world \<Rightarrow> world" where
  "toggleRule ev ruleId en w =
     (case find (\<lambda>r. id' r = ruleId) (rules w) of
        None \<Rightarrow> w
      | Some rule \<Rightarrow>
          if en \<and> \<not> isActionSupportedForScope (action rule) (scopeOrAll (scope rule))
          then alert ''Unsupported Rule''
                 ''This rule uses an action/scope combination not supported by TorBox.'' w
          else if en \<and> isDangerous rule = Some True then
            (let w1 = alert ''Enable Dangerous Rule''
                        (quoted (name rule) @ '' can permanently delete data. Enable anyway?'') w
             in if confirmed ev then persistRules ev (setEnabled ruleId en (rules w)) w1 else w1)
          else persistRules ev (setEnabled ruleId en (rules w)) w)"

text \<open>\<^verbatim>\<open>{ ...r, ...updates }\<close>: a key present in \<open>updates\<close> replaces the rule's.\<close>

definition applyUpdates :: "TorBoxRule \<Rightarrow> RuleUpdates \<Rightarrow> TorBoxRule" where
  "applyUpdates r u =
     r\<lparr>name := (case RuleUpdates.name u of None \<Rightarrow> name r | Some v \<Rightarrow> v),
       checkIntervalMinutes :=
         (case RuleUpdates.checkIntervalMinutes u of None \<Rightarrow> checkIntervalMinutes r | Some v \<Rightarrow> v),
       conditions := (case RuleUpdates.conditions u of None \<Rightarrow> conditions r | Some v \<Rightarrow> v),
       action := (case RuleUpdates.action u of None \<Rightarrow> action r | Some v \<Rightarrow> v),
       actionValue := (case RuleUpdates.actionValue u of None \<Rightarrow> actionValue r | Some v \<Rightarrow> Some v),
       scope := (case RuleUpdates.scope u of None \<Rightarrow> scope r | Some v \<Rightarrow> Some v)\<rparr>"

definition updateRule :: "env \<Rightarrow> string \<Rightarrow> RuleUpdates \<Rightarrow> world \<Rightarrow> world" where
  "updateRule ev ruleId updates w =
     (case find (\<lambda>r. id' r = ruleId) (rules w) of
        None \<Rightarrow> w
      | Some existing \<Rightarrow>
          (let nextAction = (case RuleUpdates.action updates of None \<Rightarrow> action existing | Some a \<Rightarrow> a);
               nextScope = (case RuleUpdates.scope updates of
                              None \<Rightarrow> scopeOrAll (scope existing) | Some s \<Rightarrow> s)
           in if \<not> isActionSupportedForScope nextAction nextScope
              then alert ''Unsupported Rule'' ''That action is not supported for the selected scope.'' w
              else persistRules ev
                     (map (\<lambda>r. if id' r = ruleId then applyUpdates r updates else r) (rules w)) w))"

definition deleteRule :: "env \<Rightarrow> string \<Rightarrow> world \<Rightarrow> world" where
  "deleteRule ev ruleId w = persistRules ev (filter (\<lambda>r. id' r \<noteq> ruleId) (rules w)) w"

subsection \<open>Sample inputs\<close>

text \<open>
  Concrete environments, worlds, rules and targets at which the theorems below are
  evaluated. In \<open>quietEnv\<close> every remote call and every storage operation succeeds
  and the snapshot is empty.
\<close>

definition quietEnv :: env where
  "quietEnv =
     \<lparr>now = 100000, api = (\<lambda>c. None), fetched = Inr [], rulesSaveFails = False,
      notificationsReadFails = False, notificationsSaveFails = None, random = ''k3x9ab'',
      confirmed = True\<rparr>"

definition emptyWorld :: world where
  "emptyWorld =
     \<lparr>rules = [], storedRules = [], runLock = {}, calls = [], notifications = [], alerts = []\<rparr>"

definition sampleTarget :: AutomationTarget where
  "sampleTarget =
     \<lparr>source = Torrent, sourceId = 1, AutomationTarget.name = ''ubuntu.iso'', progress = Fin 1 0,
      eta = Fin 0 0, downloadSpeed = Fin 0 0, downloadState = ''completed'', peers = Fin 3 0,
      ratio = Fin 15 (- 1), availability = Fin 1 0, AutomationTarget.createdAt = Some 0,
      tracker = None, stalledMinutes = Fin 0 0, fileIds = [7], size' = Fin 1024 0\<rparr>"

definition sampleRule :: TorBoxRule where
  "sampleRule =
     \<lparr>id' = ''r1'', name = ''Notify on completion'', enabled = False, checkIntervalMinutes = 5,
      conditions = [cond Progress Equals ''100''], action = Notify_user, actionValue = None,
      scope = Some All, isDangerous = None, isCustom = Some False, lastRunAt = None,
      lastResult = None, runCount = 0, createdAt = 0\<rparr>"

text \<open>Scenario A: the targets with progress 1.0 and 0.4.\<close>

definition scenarioA_targets :: "AutomationTarget list" where
  "scenarioA_targets = [sampleTarget, sampleTarget\<lparr>sourceId := 2, progress := toBinary64 4 (- 1)\<rparr>]"

text \<open>Two torrents to pause, where the service rejects the call for the first one.\<close>

definition twoTorrents :: "AutomationTarget list" where
  "twoTorrents = [sampleTarget, sampleTarget\<lparr>sourceId := 2\<rparr>]"

definition pauseRule :: TorBoxRule where
  "pauseRule = sampleRule\<lparr>name := ''Pause all'', conditions := [], action := Pause_download\<rparr>"

definition firstPauseFails :: env where
  "firstPauseFails =
     quietEnv\<lparr>api := (\<lambda>c. if c = ControlTorrent 1 Pause then Some (Error ''boom'') else None)\<rparr>"

definition worldWith :: "TorBoxRule \<Rightarrow> world" where
  "worldWith r = emptyWorld\<lparr>rules := [r], storedRules := [r]\<rparr>"

definition reannounceWebParams :: CustomRuleParams where
  "reannounceWebParams =
     \<lparr>CustomRuleParams.name = ''Reannounce web'', CustomRuleParams.checkIntervalMinutes = 15,
      CustomRuleParams.conditions = [], CustomRuleParams.action = Reannounce_torrent,
      CustomRuleParams.actionValue = None, CustomRuleParams.scope = Some (Only Web)\<rparr>"

definition scopeToWeb :: RuleUpdates where
  "scopeToWeb =
     \<lparr>RuleUpdates.name = None, RuleUpdates.checkIntervalMinutes = None,
      RuleUpdates.conditions = None, RuleUpdates.action = None, RuleUpdates.actionValue = None,
      RuleUpdates.scope = Some (Only Web)\<rparr>"

definition reannounceRule :: TorBoxRule where
  "reannounceRule =
     sampleRule\<lparr>name := ''Reannounce'', conditions := [], action := Reannounce_torrent,
                scope := Some (Only Torrent)\<rparr>"

definition enabledRule :: TorBoxRule where
  "enabledRule = sampleRule\<lparr>enabled := True\<rparr>"

definition fetchFails :: env where
  "fetchFails = quietEnv\<lparr>fetched := Inl (Error ''network down'')\<rparr>"


definition twoTorrentsFetched :: env where
  "twoTorrentsFetched = quietEnv\<lparr>fetched := Inr twoTorrents\<rparr>"

subsection \<open>Notions used in the statements\<close>


text \<open>
  The remote call that one iteration of the loop of \<^verbatim>\<open>executeAction\<close> makes for a target,
  if it makes one, and the calls for a list of targets in order.
\<close>

definition callFor :: "TorBoxRule \<Rightarrow> AutomationTarget \<Rightarrow> api_call option" where
  "callFor rule t =
     (case action rule of
        Pause_download \<Rightarrow>
          (case source t of
             Torrent \<Rightarrow> Some (ControlTorrent (sourceId t) Pause)
           | Usenet \<Rightarrow> Some (ControlUsenet (sourceId t) Pause)
           | Web \<Rightarrow> Some (ControlWebDownload (sourceId t) Pause))
      | Resume_download \<Rightarrow>
          (case source t of
             Torrent \<Rightarrow> Some (ControlTorrent (sourceId t) Resume)
           | Usenet \<Rightarrow> Some (ControlUsenet (sourceId t) Resume)
           | Web \<Rightarrow> Some (ControlWebDownload (sourceId t) Resume))
      | Reannounce_torrent \<Rightarrow>
          (if source t = Torrent then Some (ControlTorrent (sourceId t) Reannounce) else None)
      | Delete_download \<Rightarrow> Some (DeleteItem (source t) (sourceId t))
      | Request_download_link \<Rightarrow>
          (case firstFileId t of
             None \<Rightarrow> None
           | Some fileId \<Rightarrow> Some (GetDownloadLink (source t) (sourceId t) fileId))
      | Create_stream \<Rightarrow>
          (case firstFileId t of
             None \<Rightarrow> None
           | Some fileId \<Rightarrow> Some (GetStreamLink (source t) (sourceId t) fileId))
      | Notify_user \<Rightarrow> None)"

fun callsFor :: "TorBoxRule \<Rightarrow> AutomationTarget list \<Rightarrow> api_call list" where
  "callsFor rule [] = []"
| "callsFor rule (t # ts) =
     (case callFor rule t of None \<Rightarrow> callsFor rule ts | Some c \<Rightarrow> c # callsFor rule ts)"

text \<open>Every call for these targets resolves.\<close>

definition allResolve :: "env \<Rightarrow> TorBoxRule \<Rightarrow> AutomationTarget list \<Rightarrow> bool" where
  "allResolve ev rule ts = list_all (\<lambda>c. api ev c = None) (callsFor rule ts)"

text \<open>
  The comparison that claim C4 words as the fallback of \<^verbatim>\<open>compareValues\<close>: both sides
  lower-cased, then compared as strings, code unit by code unit for the ordering
  operators. It is not part of the source; the theorems compare \<^verbatim>\<open>compareValues\<close> with it.
\<close>

fun stringLess :: "string \<Rightarrow> string \<Rightarrow> bool" where
  "stringLess [] [] = False"
| "stringLess [] (y # ys) = True"
| "stringLess (x # xs) [] = False"
| "stringLess (x # xs) (y # ys) =
     ((of_char x :: nat) < of_char y \<or> (x = y \<and> stringLess xs ys))"

definition caseInsensitiveCompare :: "TorBoxRuleOperator \<Rightarrow> string \<Rightarrow> string \<Rightarrow> bool" where
  "caseInsensitiveCompare ope a b =
     (let x = toLowerCase a; y = toLowerCase b
      in case ope of
           Equals \<Rightarrow> x = y
         | Not_equals \<Rightarrow> x \<noteq> y
         | Greater_than \<Rightarrow> stringLess y x
         | Less_than \<Rightarrow> stringLess x y
         | Greater_than_or_equal \<Rightarrow> stringLess y x \<or> x = y
         | Less_than_or_equal \<Rightarrow> stringLess x y \<or> x = y
         | Contains \<Rightarrow> includes_str x y)"

text \<open>The four ordering operators on two numbers; the other operators are not orderings.\<close>

definition isOrdering :: "TorBoxRuleOperator \<Rightarrow> bool" where
  "isOrdering ope =
     (ope = Greater_than \<or> ope = Less_than \<or> ope = Greater_than_or_equal \<or> ope = Less_than_or_equal)"

definition numericOrder :: "TorBoxRuleOperator \<Rightarrow> jsnum \<Rightarrow> jsnum \<Rightarrow> bool" where
  "numericOrder ope a b =
     (case ope of
        Greater_than \<Rightarrow> numLess b a
      | Less_than \<Rightarrow> numLess a b
      | Greater_than_or_equal \<Rightarrow> numLessEq b a
      | Less_than_or_equal \<Rightarrow> numLessEq a b
      | _ \<Rightarrow> False)"

section \<open>Properties\<close>

subsection \<open>Predicate evaluator\<close>

lemma trim_whitespace_only: "list_all isWhiteSpace s \<Longrightarrow> trim s = []"
proof -
  assume "list_all isWhiteSpace s"
  then have h: "dropWhile isWhiteSpace s = []"
    by (induction s) auto
  show ?thesis by (simp only: trim_def h rev.simps dropWhile.simps)
qed

lemma trim_empty_whitespace_only: "trim s = [] \<Longrightarrow> list_all isWhiteSpace s"
proof -
  assume t: "trim s = []"
  then have "dropWhile isWhiteSpace (rev (dropWhile isWhiteSpace s)) = []"
    by (simp add: trim_def)
  then have "\<forall>c \<in> set (dropWhile isWhiteSpace s). isWhiteSpace c"
    by (simp add: dropWhile_eq_Nil_conv)
  then have "dropWhile isWhiteSpace s = []"
    using hd_dropWhile[of isWhiteSpace s]
    by (cases "dropWhile isWhiteSpace s") auto
  then show ?thesis
    by (simp add: dropWhile_eq_Nil_conv list_all_iff)
qed

text \<open>
  Claim C8. A rule with no conditions and scope \<^verbatim>\<open>'all'\<close> (or no scope) matches every
  target. A condition whose value is empty or consists of white space only, which is to
  say that \<^verbatim>\<open>trim\<close> leaves nothing of it, holds for every target, so it can be dropped
  from a rule without changing what the rule matches.
\<close>

theorem blank_conditions_are_vacuous:
  "((scope rule = None \<or> scope rule = Some All) \<and> conditions rule = [] \<longrightarrow> matchesRule t rule tg)
   \<and> (list_all isWhiteSpace (value' c) \<longrightarrow> trim (value' c) = [])
   \<and> (trim (value' c) = [] \<longrightarrow>
        list_all isWhiteSpace (value' c)
        \<and> conditionHolds t tg c
        \<and> matchesRule t (rule\<lparr>conditions := cs1 @ c # cs2\<rparr>) tg
          = matchesRule t (rule\<lparr>conditions := cs1 @ cs2\<rparr>) tg)"
  by (auto simp: matchesRule_def conditionHolds_def trim_whitespace_only trim_empty_whitespace_only
           split: option.splits TorBoxRuleScope.splits)

theorem blank_conditions_are_vacuous_witness:
  "matchesRule 5 (sampleRule\<lparr>conditions := []\<rparr>) sampleTarget
   \<and> trim [CHR 0xA0, CHR 0x09, CHR '' ''] = []
   \<and> conditionHolds 5 sampleTarget (cond Progress Equals [CHR 0xA0, CHR 0x09, CHR '' ''])
   \<and> matchesRule 5 (sampleRule\<lparr>conditions := [cond Status Equals ''completed''] @ cond Progress Equals [CHR 0xA0, CHR 0x09, CHR '' ''] # []\<rparr>) sampleTarget
        = matchesRule 5 (sampleRule\<lparr>conditions := [cond Status Equals ''completed''] @ []\<rparr>) sampleTarget"
proof -
  have w: "list_all isWhiteSpace (value' (cond Progress Equals [CHR 0xA0, CHR 0x09, CHR '' '']))"
    by (simp add: cond_def isWhiteSpace_def)
  note T = blank_conditions_are_vacuous
          [where rule = "sampleRule\<lparr>conditions := []\<rparr>"
             and c = "cond Progress Equals [CHR 0xA0, CHR 0x09, CHR '' '']"
             and t = 5 and tg = sampleTarget and ?cs1.0 = "[cond Status Equals ''completed'']"
             and ?cs2.0 = "[]"]
  note e = T[THEN conjunct2, THEN conjunct1, THEN mp, OF w]
  note r = T[THEN conjunct2, THEN conjunct2, THEN mp, OF e]
  have m: "matchesRule 5 (sampleRule\<lparr>conditions := []\<rparr>) sampleTarget"
    using T[THEN conjunct1] by (simp add: sampleRule_def)
  from e r m show ?thesis
    by (simp add: cond_def)
qed

lemma lowerChar_split:
  "(lowerChar c = c \<and> c \<notin> set upperChars) \<or> (c, lowerChar c) \<in> set (zip upperChars lowerChars)"
proof (cases "map_of (zip upperChars lowerChars) c")
  case None
  then have "c \<notin> fst ` set (zip upperChars lowerChars)" by (simp add: map_of_eq_None_iff)
  moreover have "fst ` set (zip upperChars lowerChars) = set upperChars"
    by (simp add: upperChars_def lowerChars_def)
  ultimately show ?thesis using None by (simp add: lowerChar_def)
next
  case (Some d)
  then show ?thesis by (simp add: lowerChar_def map_of_SomeD)
qed

lemma case_table:
  "\<forall>p \<in> set (zip upperChars lowerChars).
     hexVal (snd p) = hexVal (fst p)
     \<and> \<not> isWhiteSpace (snd p) \<and> \<not> isWhiteSpace (fst p)
     \<and> snd p \<notin> set ''+-.0EXOBI'' \<and> fst p \<notin> set ''+-.0exob''
     \<and> (snd p = CHR ''e'' \<longrightarrow> fst p = CHR ''E'')
     \<and> (snd p = CHR ''x'' \<longrightarrow> fst p = CHR ''X'')
     \<and> (snd p = CHR ''o'' \<longrightarrow> fst p = CHR ''O'')
     \<and> (snd p = CHR ''b'' \<longrightarrow> fst p = CHR ''B'')"
  by (simp add: upperChars_def lowerChars_def hexVal_def isWhiteSpace_def)

lemma lower_of_marks:
  "lowerChar CHR ''E'' = CHR ''e''" "lowerChar CHR ''X'' = CHR ''x''"
  "lowerChar CHR ''O'' = CHR ''o''" "lowerChar CHR ''B'' = CHR ''b''"
  "CHR ''E'' \<in> set upperChars" "CHR ''X'' \<in> set upperChars" "CHR ''O'' \<in> set upperChars"
  "CHR ''B'' \<in> set upperChars" "CHR ''I'' \<in> set upperChars"
  by (simp_all add: lowerChar_def upperChars_def lowerChars_def)


lemma case_pair:
  assumes "(u, l) \<in> set (zip upperChars lowerChars)"
  shows "hexVal l = hexVal u"
    and "\<not> isWhiteSpace l" and "\<not> isWhiteSpace u"
    and "l \<notin> set ''+-.0EXOBI''" and "u \<notin> set ''+-.0exob''"
    and "l = CHR ''e'' \<longrightarrow> u = CHR ''E''"
    and "l = CHR ''x'' \<longrightarrow> u = CHR ''X''"
    and "l = CHR ''o'' \<longrightarrow> u = CHR ''O''"
    and "l = CHR ''b'' \<longrightarrow> u = CHR ''B''"
  using case_table[THEN bspec, OF assms] by simp_all

lemma hexVal_lowerChar: "hexVal (lowerChar c) = hexVal c"
  using lowerChar_split[of c] case_pair(1)[of c "lowerChar c"] by (elim disjE) simp_all

lemma isWhiteSpace_lowerChar: "isWhiteSpace (lowerChar c) = isWhiteSpace c"
  using lowerChar_split[of c] case_pair(2)[of c "lowerChar c"] case_pair(3)[of c "lowerChar c"]
  by (elim disjE) simp_all

lemma lowerChar_mark_plus: "(lowerChar c = CHR ''+'') = (c = CHR ''+'')"
proof -
  from lowerChar_split[of c] show ?thesis
  proof
    assume "lowerChar c = c \<and> c \<notin> set upperChars"
    then show ?thesis by simp
  next
    assume p: "(c, lowerChar c) \<in> set (zip upperChars lowerChars)"
    from case_pair(4)[OF p] case_pair(5)[OF p] show ?thesis by simp
  qed
qed

lemma lowerChar_mark_minus: "(lowerChar c = CHR ''-'') = (c = CHR ''-'')"
proof -
  from lowerChar_split[of c] show ?thesis
  proof
    assume "lowerChar c = c \<and> c \<notin> set upperChars"
    then show ?thesis by simp
  next
    assume p: "(c, lowerChar c) \<in> set (zip upperChars lowerChars)"
    from case_pair(4)[OF p] case_pair(5)[OF p] show ?thesis by simp
  qed
qed

lemma lowerChar_mark_dot: "(lowerChar c = CHR ''.'') = (c = CHR ''.'')"
proof -
  from lowerChar_split[of c] show ?thesis
  proof
    assume "lowerChar c = c \<and> c \<notin> set upperChars"
    then show ?thesis by simp
  next
    assume p: "(c, lowerChar c) \<in> set (zip upperChars lowerChars)"
    from case_pair(4)[OF p] case_pair(5)[OF p] show ?thesis by simp
  qed
qed

lemma lowerChar_mark_zero: "(lowerChar c = CHR ''0'') = (c = CHR ''0'')"
proof -
  from lowerChar_split[of c] show ?thesis
  proof
    assume "lowerChar c = c \<and> c \<notin> set upperChars"
    then show ?thesis by simp
  next
    assume p: "(c, lowerChar c) \<in> set (zip upperChars lowerChars)"
    from case_pair(4)[OF p] case_pair(5)[OF p] show ?thesis by simp
  qed
qed

lemma lowerChar_mark_e: "(lowerChar c = CHR ''e'') = (c = CHR ''e'' \<or> c = CHR ''E'')"
proof -
  from lowerChar_split[of c] show ?thesis
  proof
    assume a: "lowerChar c = c \<and> c \<notin> set upperChars"
    have "c \<noteq> CHR ''E''"
    proof
      assume "c = CHR ''E''"
      with a lower_of_marks(5) show False by simp
    qed
    with a show ?thesis by simp
  next
    assume p: "(c, lowerChar c) \<in> set (zip upperChars lowerChars)"
    have 1: "lowerChar c = CHR ''e'' \<longrightarrow> c = CHR ''E''" by (rule case_pair(6)[OF p])
    have 2: "c \<noteq> CHR ''e''" using case_pair(5)[OF p] by simp
    have 3: "c = CHR ''E'' \<longrightarrow> lowerChar c = CHR ''e''" using lower_of_marks(1) by simp
    from 1 2 3 show ?thesis by blast
  qed
qed

lemma lowerChar_mark_x: "(lowerChar c = CHR ''x'') = (c = CHR ''x'' \<or> c = CHR ''X'')"
proof -
  from lowerChar_split[of c] show ?thesis
  proof
    assume a: "lowerChar c = c \<and> c \<notin> set upperChars"
    have "c \<noteq> CHR ''X''"
    proof
      assume "c = CHR ''X''"
      with a lower_of_marks(6) show False by simp
    qed
    with a show ?thesis by simp
  next
    assume p: "(c, lowerChar c) \<in> set (zip upperChars lowerChars)"
    have 1: "lowerChar c = CHR ''x'' \<longrightarrow> c = CHR ''X''" by (rule case_pair(7)[OF p])
    have 2: "c \<noteq> CHR ''x''" using case_pair(5)[OF p] by simp
    have 3: "c = CHR ''X'' \<longrightarrow> lowerChar c = CHR ''x''" using lower_of_marks(2) by simp
    from 1 2 3 show ?thesis by blast
  qed
qed

lemma lowerChar_mark_o: "(lowerChar c = CHR ''o'') = (c = CHR ''o'' \<or> c = CHR ''O'')"
proof -
  from lowerChar_split[of c] show ?thesis
  proof
    assume a: "lowerChar c = c \<and> c \<notin> set upperChars"
    have "c \<noteq> CHR ''O''"
    proof
      assume "c = CHR ''O''"
      with a lower_of_marks(7) show False by simp
    qed
    with a show ?thesis by simp
  next
    assume p: "(c, lowerChar c) \<in> set (zip upperChars lowerChars)"
    have 1: "lowerChar c = CHR ''o'' \<longrightarrow> c = CHR ''O''" by (rule case_pair(8)[OF p])
    have 2: "c \<noteq> CHR ''o''" using case_pair(5)[OF p] by simp
    have 3: "c = CHR ''O'' \<longrightarrow> lowerChar c = CHR ''o''" using lower_of_marks(3) by simp
    from 1 2 3 show ?thesis by blast
  qed
qed

lemma lowerChar_mark_b: "(lowerChar c = CHR ''b'') = (c = CHR ''b'' \<or> c = CHR ''B'')"
proof -
  from lowerChar_split[of c] show ?thesis
  proof
    assume a: "lowerChar c = c \<and> c \<notin> set upperChars"
    have "c \<noteq> CHR ''B''"
    proof
      assume "c = CHR ''B''"
      with a lower_of_marks(8) show False by simp
    qed
    with a show ?thesis by simp
  next
    assume p: "(c, lowerChar c) \<in> set (zip upperChars lowerChars)"
    have 1: "lowerChar c = CHR ''b'' \<longrightarrow> c = CHR ''B''" by (rule case_pair(9)[OF p])
    have 2: "c \<noteq> CHR ''b''" using case_pair(5)[OF p] by simp
    have 3: "c = CHR ''B'' \<longrightarrow> lowerChar c = CHR ''b''" using lower_of_marks(4) by simp
    from 1 2 3 show ?thesis by blast
  qed
qed

lemma lowerChar_mark_E: "lowerChar c \<noteq> CHR ''E''"
proof -
  from lowerChar_split[of c] show ?thesis
  proof
    assume a: "lowerChar c = c \<and> c \<notin> set upperChars"
    show ?thesis
    proof
      assume "lowerChar c = CHR ''E''"
      with a lower_of_marks(5) show False by simp
    qed
  next
    assume p: "(c, lowerChar c) \<in> set (zip upperChars lowerChars)"
    from case_pair(4)[OF p] show ?thesis by simp
  qed
qed

lemma lowerChar_mark_X: "lowerChar c \<noteq> CHR ''X''"
proof -
  from lowerChar_split[of c] show ?thesis
  proof
    assume a: "lowerChar c = c \<and> c \<notin> set upperChars"
    show ?thesis
    proof
      assume "lowerChar c = CHR ''X''"
      with a lower_of_marks(6) show False by simp
    qed
  next
    assume p: "(c, lowerChar c) \<in> set (zip upperChars lowerChars)"
    from case_pair(4)[OF p] show ?thesis by simp
  qed
qed

lemma lowerChar_mark_O: "lowerChar c \<noteq> CHR ''O''"
proof -
  from lowerChar_split[of c] show ?thesis
  proof
    assume a: "lowerChar c = c \<and> c \<notin> set upperChars"
    show ?thesis
    proof
      assume "lowerChar c = CHR ''O''"
      with a lower_of_marks(7) show False by simp
    qed
  next
    assume p: "(c, lowerChar c) \<in> set (zip upperChars lowerChars)"
    from case_pair(4)[OF p] show ?thesis by simp
  qed
qed

lemma lowerChar_mark_B: "lowerChar c \<noteq> CHR ''B''"
proof -
  from lowerChar_split[of c] show ?thesis
  proof
    assume a: "lowerChar c = c \<and> c \<notin> set upperChars"
    show ?thesis
    proof
      assume "lowerChar c = CHR ''B''"
      with a lower_of_marks(8) show False by simp
    qed
  next
    assume p: "(c, lowerChar c) \<in> set (zip upperChars lowerChars)"
    from case_pair(4)[OF p] show ?thesis by simp
  qed
qed

lemma lowerChar_mark_I: "lowerChar c \<noteq> CHR ''I''"
proof -
  from lowerChar_split[of c] show ?thesis
  proof
    assume a: "lowerChar c = c \<and> c \<notin> set upperChars"
    show ?thesis
    proof
      assume "lowerChar c = CHR ''I''"
      with a lower_of_marks(9) show False by simp
    qed
  next
    assume p: "(c, lowerChar c) \<in> set (zip upperChars lowerChars)"
    from case_pair(4)[OF p] show ?thesis by simp
  qed
qed

lemmas lowerChar_marks =
  lowerChar_mark_plus
  lowerChar_mark_minus
  lowerChar_mark_dot
  lowerChar_mark_zero
  lowerChar_mark_e
  lowerChar_mark_x
  lowerChar_mark_o
  lowerChar_mark_b
  lowerChar_mark_E
  lowerChar_mark_X
  lowerChar_mark_O
  lowerChar_mark_B
  lowerChar_mark_I

lemma isDigitIn_lowerChar: "isDigitIn base (lowerChar c) = isDigitIn base c"
  by (simp add: isDigitIn_def hexVal_lowerChar)

lemma takeWhile_digits_lower:
  "takeWhile (isDigitIn base) (map lowerChar s) = map lowerChar (takeWhile (isDigitIn base) s)"
  by (induction s) (simp_all add: isDigitIn_lowerChar)

lemma dropWhile_digits_lower:
  "dropWhile (isDigitIn base) (map lowerChar s) = map lowerChar (dropWhile (isDigitIn base) s)"
  by (induction s) (simp_all add: isDigitIn_lowerChar)

lemma list_all_digits_lower:
  "list_all (isDigitIn base) (map lowerChar s) = list_all (isDigitIn base) s"
  by (induction s) (simp_all add: isDigitIn_lowerChar)

lemma foldl_digits_lower:
  "foldl (\<lambda>acc c. acc * int base + (case hexVal c of None \<Rightarrow> 0 | Some v \<Rightarrow> int v)) a
      (map lowerChar ds)
   = foldl (\<lambda>acc c. acc * int base + (case hexVal c of None \<Rightarrow> 0 | Some v \<Rightarrow> int v)) a ds"
  by (induction ds arbitrary: a) (simp_all add: hexVal_lowerChar)

lemma digitsVal_lower: "digitsVal base (map lowerChar ds) = digitsVal base ds"
  by (simp add: digitsVal_def foldl_digits_lower)

lemma digitsVal_lower_Cons:
  "digitsVal base (lowerChar c # map lowerChar ds) = digitsVal base (c # ds)"
  using digitsVal_lower[of base "c # ds"] by simp

lemma dropWhile_space_lower:
  "dropWhile isWhiteSpace (map lowerChar s) = map lowerChar (dropWhile isWhiteSpace s)"
  by (induction s) (simp_all add: isWhiteSpace_lowerChar)

lemma trim_lower: "trim (toLowerCase s) = toLowerCase (trim s)"
  by (simp add: trim_def toLowerCase_def dropWhile_space_lower rev_map)

lemma exponentPart_lower: "exponentPart (map lowerChar r) = exponentPart r"
proof (cases r)
  case Nil
  then show ?thesis by (simp add: exponentPart_def)
next
  case (Cons c r1)
  show ?thesis
  proof (cases r1)
    case Nil
    with Cons show ?thesis by (simp add: exponentPart_def lowerChar_marks)
  next
    case inner: (Cons s r2)
    with Cons show ?thesis
      by (simp add: exponentPart_def lowerChar_marks list_all_digits_lower digitsVal_lower
               digitsVal_lower_Cons isDigitIn_lowerChar Let_def)
  qed
qed

lemma nonDecimal_lower: "nonDecimal (map lowerChar s) = nonDecimal s"
proof (cases s)
  case Nil
  then show ?thesis by (simp add: nonDecimal_def)
next
  case (Cons z s1)
  show ?thesis
  proof (cases s1)
    case Nil
    with Cons show ?thesis by (simp add: nonDecimal_def)
  next
    case inner: (Cons p ds)
    with Cons show ?thesis
      by (simp add: nonDecimal_def lowerChar_marks list_all_digits_lower digitsVal_lower
               digitsVal_lower_Cons isDigitIn_lowerChar Let_def)
  qed
qed


lemma lower_not_Infinity: "map lowerChar s \<noteq> ''Infinity''"
  by (cases s) (simp_all add: lowerChar_marks)

lemma dot_lower:
  "(case map lowerChar r of [] \<Rightarrow> False | c # x \<Rightarrow> c = CHR ''.'')
   = (case r of [] \<Rightarrow> False | c # x \<Rightarrow> c = CHR ''.'')"
  by (cases r) (simp_all add: lowerChar_marks)

lemma strUnsignedDecimal_lower:
  "s \<noteq> ''Infinity'' \<Longrightarrow> strUnsignedDecimal (map lowerChar s) = strUnsignedDecimal s"
proof (cases "case dropWhile (isDigitIn 10) s of [] \<Rightarrow> False | c # x \<Rightarrow> c = CHR ''.''")
  case True
  assume "s \<noteq> ''Infinity''"
  with True show ?thesis
    unfolding strUnsignedDecimal_def
    by (simp add: lower_not_Infinity takeWhile_digits_lower dropWhile_digits_lower dot_lower
          map_tl[symmetric] Let_def exponentPart_lower map_append[symmetric] digitsVal_lower
          del: map_append split: option.splits)
next
  case False
  assume "s \<noteq> ''Infinity''"
  with False show ?thesis
    unfolding strUnsignedDecimal_def
    by (simp add: lower_not_Infinity takeWhile_digits_lower dropWhile_digits_lower dot_lower
          Let_def exponentPart_lower digitsVal_lower split: option.splits)
qed

lemma strUnsignedDecimal_infinity_lower: "strUnsignedDecimal (map lowerChar ''Infinity'') = NaN"
  by (simp add: strUnsignedDecimal_def lowerChar_def upperChars_def lowerChars_def
        isDigitIn_def hexVal_def)

lemma strUnsignedDecimal_range:
  "strUnsignedDecimal s = NaN \<or> (\<exists>m e. strUnsignedDecimal s = Fin m e)
   \<or> (s = ''Infinity'' \<and> strUnsignedDecimal s = PosInf)"
  by (auto simp: strUnsignedDecimal_def Let_def split: option.splits)

lemma strUnsignedDecimal_not_finite:
  "\<not> isFinite (strUnsignedDecimal s) \<Longrightarrow> strUnsignedDecimal (map lowerChar s) = NaN"
proof (cases "s = ''Infinity''")
  case True
  assume "\<not> isFinite (strUnsignedDecimal s)"
  from True strUnsignedDecimal_infinity_lower show ?thesis by simp
next
  case False
  assume n: "\<not> isFinite (strUnsignedDecimal s)"
  from strUnsignedDecimal_range[of s] False n have "strUnsignedDecimal s = NaN"
    by (auto simp: isFinite_def)
  with strUnsignedDecimal_lower[OF False] show ?thesis by simp
qed

lemma nonDecimal_finite: "nonDecimal s = Some n \<Longrightarrow> isFinite n"
  by (auto simp: nonDecimal_def isFinite_def Let_def split: list.splits if_splits)

lemma isFinite_negate: "isFinite (negate n) = isFinite n"
  by (cases n) (simp_all add: isFinite_def negate_def)

lemma numericLiteral_lower:
  "numericLiteral (toLowerCase raw)
     = (if isFinite (numericLiteral raw) then numericLiteral raw else NaN)"
proof -
  define s where "s = trim raw"
  have t: "trim (toLowerCase raw) = map lowerChar s"
    using trim_lower[of raw] by (simp add: s_def toLowerCase_def)
  have u: "strUnsignedDecimal (map lowerChar x)
             = (if isFinite (strUnsignedDecimal x) then strUnsignedDecimal x else NaN)" for x
  proof (cases "x = ''Infinity''")
    case True
    then show ?thesis
      using strUnsignedDecimal_infinity_lower by (simp add: strUnsignedDecimal_def isFinite_def)
  next
    case False
    from strUnsignedDecimal_range[of x] False strUnsignedDecimal_lower[OF False]
    show ?thesis by (auto simp: isFinite_def)
  qed
  show ?thesis
  proof (cases "s = []")
    case True
    then show ?thesis
      by (simp add: numericLiteral_def t s_def[symmetric] isFinite_def)
  next
    case ne: False
    show ?thesis
    proof (cases "nonDecimal s")
      case (Some n)
      with ne nonDecimal_finite[OF Some] nonDecimal_lower[of s] show ?thesis
        by (simp add: numericLiteral_def t s_def[symmetric])
    next
      case None
      from ne obtain c r where cr: "s = c # r" by (cases s) auto
      have orig: "numericLiteral raw =
          (if c = CHR ''+'' then strUnsignedDecimal r
           else if c = CHR ''-'' then negate (strUnsignedDecimal r)
           else strUnsignedDecimal s)"
        using None cr by (simp add: numericLiteral_def s_def[symmetric] Let_def)
      have low: "numericLiteral (toLowerCase raw) =
          (if c = CHR ''+'' then strUnsignedDecimal (map lowerChar r)
           else if c = CHR ''-'' then negate (strUnsignedDecimal (map lowerChar r))
           else strUnsignedDecimal (map lowerChar s))"
        using None cr nonDecimal_lower[of s]
        by (simp add: numericLiteral_def t Let_def lowerChar_marks)
      show ?thesis
        unfolding orig low u
        by (cases "strUnsignedDecimal r") (simp_all add: isFinite_def negate_def)
    qed
  qed
qed

lemma if_neq: "(c \<Longrightarrow> a \<noteq> x) \<Longrightarrow> (\<not> c \<Longrightarrow> b \<noteq> x) \<Longrightarrow> (if c then a else b) \<noteq> x"
  by (cases c) simp_all

lemma prod_case_neq: "(\<And>a b. f a b \<noteq> x) \<Longrightarrow> (case p of (a, b) \<Rightarrow> f a b) \<noteq> x"
  by (cases p) simp

lemma toBinary64_not_NaN: "toBinary64 m e \<noteq> NaN"
  unfolding toBinary64_def Let_def
  by (intro if_neq prod_case_neq jsnum.distinct)

lemma roundNumber_NaN: "(roundNumber n = NaN) = (n = NaN)"
  by (cases n) (simp_all add: roundNumber_def toBinary64_not_NaN)

lemma roundNumber_not_finite: "\<not> isFinite n \<Longrightarrow> roundNumber n = n"
  by (cases n) (simp_all add: roundNumber_def isFinite_def)

lemma Number_str_lower:
  "Number_str (toLowerCase raw) = (if isFinite (numericLiteral raw) then Number_str raw else NaN)"
  by (simp add: Number_str_def numericLiteral_lower roundNumber_def)

lemma Number_str_lower_NaN: "Number_str raw = NaN \<Longrightarrow> Number_str (toLowerCase raw) = NaN"
  by (simp add: Number_str_def roundNumber_NaN numericLiteral_lower isFinite_def)

lemma Number_str_lower_not_finite:
  "\<not> isFinite (Number_str raw) \<Longrightarrow>
     Number_str (toLowerCase raw) = NaN \<or> Number_str (toLowerCase raw) = Number_str raw"
  by (simp add: Number_str_lower)

lemma non_finite_text_is_NaN:
  "Number_str ''nan'' = NaN" "Number_str ''infinity'' = NaN" "Number_str ''-infinity'' = NaN"
  by code_simp+

lemma lower_non_finite_text:
  "toLowerCase ''NaN'' = ''nan''" "toLowerCase ''Infinity'' = ''infinity''"
  "toLowerCase ''-Infinity'' = ''-infinity''"
  by code_simp+

lemma numLess_NaN: "numLess a NaN = False" "numLess NaN a = False"
  by (cases a; simp)+

lemma numLessEq_NaN: "numLessEq a NaN = False" "numLessEq NaN a = False"
  by (cases a; simp add: numLessEq_def)+

lemma numericOrder_NaN: "numericOrder ope a NaN = False" "numericOrder ope NaN a = False"
  by (cases ope; simp add: numericOrder_def numLess_NaN numLessEq_NaN)+

lemma reconverted_number:
  "\<not> isFinite n \<Longrightarrow> Number_str (toLowerCase (String_num n)) = NaN"
  by (cases n)
     (simp_all add: String_num_def isFinite_def lower_non_finite_text non_finite_text_is_NaN)

lemma fallback_sides:
  assumes "\<not> (isFinite (Number_str r) \<and> isFinite (Number_val left))"
  shows "compareValues left r ope =
     (let l = toLowerCase (String_val left)
      in if isFinite (Number_str r)
         then (case ope of
                 Equals \<Rightarrow> False
               | Not_equals \<Rightarrow> True
               | Contains \<Rightarrow> includes_str l (String_num (Number_str r))
               | _ \<Rightarrow> numericOrder ope (Number_str l) (Number_str r))
         else (case ope of
                 Equals \<Rightarrow> l = toLowerCase r
               | Not_equals \<Rightarrow> l \<noteq> toLowerCase r
               | Contains \<Rightarrow> includes_str l (toLowerCase r)
               | _ \<Rightarrow> numericOrder ope (Number_str l) (Number_str (toLowerCase r))))"
proof (cases "isFinite (Number_str r)")
  case True
  with assms have "\<not> isFinite (case left of Num n \<Rightarrow> n | Str s \<Rightarrow> Number_str s)"
    by (simp add: Number_val_def)
  with True show ?thesis
    by (cases ope)
       (simp_all add: compareValues_def Let_def isNum_def numericOrder_def
          Number_val_def[of "Str _"] Number_val_def[of "Num _"]
          String_val_def[of "Str _"] String_val_def[of "Num _"])
next
  case False
  then show ?thesis
    by (cases ope)
       (simp_all add: compareValues_def Let_def isNum_def numericOrder_def
          Number_val_def[of "Str _"] Number_val_def[of "Num _"]
          String_val_def[of "Str _"] String_val_def[of "Num _"])
qed

text \<open>
  Claim C4, amended. The condition's value counts as a number exactly when its conversion
  is finite. When both sides are numbers, the six relational operators compare the
  numbers and \<^verbatim>\<open>contains\<close> searches the text of the left number for that of the right.
  When the value is not a number, \<^verbatim>\<open>equals\<close>, \<^verbatim>\<open>not_equals\<close> and \<^verbatim>\<open>contains\<close> are the
  case-insensitive string comparison of the two sides. When the value is a number and
  the left side is not, \<^verbatim>\<open>equals\<close> is false, \<^verbatim>\<open>not_equals\<close> is true and \<^verbatim>\<open>contains\<close>
  searches the lower-cased left text for the number's text. The four ordering operators
  never compare strings: outside the numeric case they convert the lower-cased texts to
  numbers once more and compare those. A text that is not a numeric literal converts to
  NaN, since lower-casing keeps it from being one (\<open>Number_str_lower\<close>), and then the
  answer is false; a numeric literal beyond the range of a double converts to an
  infinity and is compared as that infinity, so \<^verbatim>\<open>5 less_than '1e400'\<close> holds. Whenever
  a side converts to NaN, the ordering operators are false.
\<close>

theorem compareValues_by_cases:
  "(isFinite (Number_str r) \<and> isFinite (Number_val left) \<longrightarrow>
      compareValues left r ope =
        (case ope of
           Equals \<Rightarrow> numEq (Number_val left) (Number_str r)
         | Not_equals \<Rightarrow> \<not> numEq (Number_val left) (Number_str r)
         | Greater_than \<Rightarrow> numLess (Number_str r) (Number_val left)
         | Less_than \<Rightarrow> numLess (Number_val left) (Number_str r)
         | Greater_than_or_equal \<Rightarrow> numLessEq (Number_str r) (Number_val left)
         | Less_than_or_equal \<Rightarrow> numLessEq (Number_val left) (Number_str r)
         | Contains \<Rightarrow> includes_str (String_num (Number_val left)) (String_num (Number_str r))))
   \<and> (\<not> isFinite (Number_str r) \<longrightarrow>
      compareValues left r ope =
        (if isOrdering ope
         then isFinite (numericLiteral r)
              \<and> numericOrder ope (Number_str (toLowerCase (String_val left))) (Number_str r)
         else caseInsensitiveCompare ope (String_val left) r))
   \<and> (isFinite (Number_str r) \<and> \<not> isFinite (Number_val left) \<longrightarrow>
      compareValues left r ope =
        (case ope of
           Equals \<Rightarrow> False
         | Not_equals \<Rightarrow> True
         | Contains \<Rightarrow> includes_str (toLowerCase (String_val left)) (String_num (Number_str r))
         | _ \<Rightarrow> (case left of
                  Num n \<Rightarrow> False
                | Str s \<Rightarrow> isFinite (numericLiteral s)
                           \<and> numericOrder ope (Number_str s) (Number_str r))))
   \<and> (isOrdering ope \<and> (Number_str r = NaN \<or> Number_val left = NaN) \<longrightarrow>
      compareValues left r ope = False)"
proof (intro conjI impI)
  assume a: "isFinite (Number_str r) \<and> isFinite (Number_val left)"
  then show "compareValues left r ope =
        (case ope of
           Equals \<Rightarrow> numEq (Number_val left) (Number_str r)
         | Not_equals \<Rightarrow> \<not> numEq (Number_val left) (Number_str r)
         | Greater_than \<Rightarrow> numLess (Number_str r) (Number_val left)
         | Less_than \<Rightarrow> numLess (Number_val left) (Number_str r)
         | Greater_than_or_equal \<Rightarrow> numLessEq (Number_str r) (Number_val left)
         | Less_than_or_equal \<Rightarrow> numLessEq (Number_val left) (Number_str r)
         | Contains \<Rightarrow> includes_str (String_num (Number_val left)) (String_num (Number_str r)))"
    by (cases ope; cases left)
       (simp_all add: compareValues_def Let_def isNum_def Number_val_def String_val_def)
next
  assume b: "\<not> isFinite (Number_str r)"
  then have f: "\<not> (isFinite (Number_str r) \<and> isFinite (Number_val left))" by simp
  from b show "compareValues left r ope =
        (if isOrdering ope
         then isFinite (numericLiteral r)
              \<and> numericOrder ope (Number_str (toLowerCase (String_val left))) (Number_str r)
         else caseInsensitiveCompare ope (String_val left) r)"
    unfolding fallback_sides[OF f]
    by (cases ope)
       (simp_all add: Let_def isOrdering_def caseInsensitiveCompare_def
          Number_str_lower[of r] numericOrder_NaN)
next
  assume c: "isFinite (Number_str r) \<and> \<not> isFinite (Number_val left)"
  then have f: "\<not> (isFinite (Number_str r) \<and> isFinite (Number_val left))" by simp
  show "compareValues left r ope =
        (case ope of
           Equals \<Rightarrow> False
         | Not_equals \<Rightarrow> True
         | Contains \<Rightarrow> includes_str (toLowerCase (String_val left)) (String_num (Number_str r))
         | _ \<Rightarrow> (case left of
                  Num n \<Rightarrow> False
                | Str s \<Rightarrow> isFinite (numericLiteral s)
                           \<and> numericOrder ope (Number_str s) (Number_str r)))"
  proof (cases left)
    case (Num n)
    with c have "Number_str (toLowerCase (String_val left)) = NaN"
      by (simp add: Number_val_def String_val_def reconverted_number)
    with c Num show ?thesis
      unfolding fallback_sides[OF f]
      by (cases ope) (simp_all add: Let_def numericOrder_NaN)
  next
    case (Str s)
    with c show ?thesis
      unfolding fallback_sides[OF f]
      by (cases ope)
         (simp_all add: Let_def String_val_def Number_str_lower[of s] numericOrder_NaN)
  qed
next
  assume d: "isOrdering ope \<and> (Number_str r = NaN \<or> Number_val left = NaN)"
  then have f: "\<not> (isFinite (Number_str r) \<and> isFinite (Number_val left))"
    by (auto simp: isFinite_def)
  have l: "Number_val left = NaN \<Longrightarrow> Number_str (toLowerCase (String_val left)) = NaN"
    by (cases left)
       (simp_all add: Number_val_def String_val_def Number_str_lower_NaN reconverted_number
          isFinite_def)
  have r: "Number_str r = NaN \<Longrightarrow> Number_str (toLowerCase r) = NaN"
    by (rule Number_str_lower_NaN)
  from d l r show "compareValues left r ope = False"
    unfolding fallback_sides[OF f]
    by (cases ope) (auto simp: Let_def isOrdering_def numericOrder_NaN)
qed

theorem compareValues_by_cases_witness:
  "compareValues (Num (Fin 25 0)) ''20'' Greater_than
   \<and> compareValues (Str ''Paused'') ''paused'' Equals
   \<and> compareValues (Str ''movie.720p'') ''720'' Greater_than = False
   \<and> compareValues (Num (Fin 5 0)) ''1e400'' Less_than
   \<and> compareValues (Str ''seeding'') ''paused'' Less_than = False"
proof -
  have n: "Number_str ''20'' = Fin 2 1" "Number_str ''paused'' = NaN"
    "Number_str ''720'' = Fin 72 1" "Number_str ''movie.720p'' = NaN"
    "Number_str ''1e400'' = PosInf" "numericLiteral ''1e400'' = Fin 1 400"
    "String_num (Fin 5 0) = ''5''" "Number_str ''5'' = Fin 5 0"
    "toLowerCase ''5'' = ''5''" "toLowerCase ''Paused'' = ''paused''"
    "toLowerCase ''paused'' = ''paused''"
    by code_simp+
  note T = compareValues_by_cases
  from T[of "''20''" "Num (Fin 25 0)" Greater_than, THEN conjunct1]
  have a: "compareValues (Num (Fin 25 0)) ''20'' Greater_than"
    by (simp add: n isFinite_def Number_val_def scaled_def)
  from T[of "''paused''" "Str ''Paused''" Equals, THEN conjunct2, THEN conjunct1]
  have b: "compareValues (Str ''Paused'') ''paused'' Equals"
    by (simp add: n isFinite_def isOrdering_def caseInsensitiveCompare_def String_val_def)
  from T[of "''720''" "Str ''movie.720p''" Greater_than, THEN conjunct2, THEN conjunct2, THEN conjunct2]
  have c: "compareValues (Str ''movie.720p'') ''720'' Greater_than = False"
    by (simp add: n isFinite_def isOrdering_def Number_val_def)
  from T[of "''1e400''" "Num (Fin 5 0)" Less_than, THEN conjunct2, THEN conjunct1]
  have d: "compareValues (Num (Fin 5 0)) ''1e400'' Less_than"
    by (simp add: n isFinite_def isOrdering_def numericOrder_def String_val_def)
  from T[of "''paused''" "Str ''seeding''" Less_than, THEN conjunct2, THEN conjunct2, THEN conjunct2]
  have e: "compareValues (Str ''seeding'') ''paused'' Less_than = False"
    by (simp add: n isOrdering_def)
  from a b c d e show ?thesis by (intro conjI)
qed

text \<open>
  Claim C4, as stated, fails for the ordering operators: on two sides that are not
  numbers they convert both to numbers again, get NaN and answer false, where the
  case-insensitive string comparison holds.
\<close>

theorem ordering_never_compares_strings:
  "compareValues (Str ''b'') ''a'' Greater_than = False
   \<and> caseInsensitiveCompare Greater_than ''b'' ''a'' = True
   \<and> compareValues (Str ''a'') ''a'' Greater_than_or_equal = False
   \<and> caseInsensitiveCompare Greater_than_or_equal ''a'' ''a'' = True"
  by code_simp

subsection \<open>Rule store\<close>

text \<open>
  Claim C9. The rule built from any preset is disabled, and whenever
  \<^verbatim>\<open>addRuleFromPreset\<close> answers a rule, that rule is disabled and is the one appended
  to the rule list.
\<close>

theorem preset_rules_start_disabled:
  "\<not> enabled (createRuleFromPreset t p)
   \<and> (addRuleFromPreset ev presetId w = (Some r, w1) \<longrightarrow>
        \<not> enabled r \<and> rules w1 = rules w @ [r])"
  by (auto simp: createRuleFromPreset_def addRuleFromPreset_def persistRules_def alert_def Let_def
           split: option.splits if_splits)

theorem preset_rules_start_disabled_witness:
  "fst (addRuleFromPreset quietEnv ''delete_very_old_completed'' emptyWorld) \<noteq> None
   \<and> \<not> enabled (the (fst (addRuleFromPreset quietEnv ''delete_very_old_completed'' emptyWorld)))
   \<and> map enabled (rules (snd (addRuleFromPreset quietEnv ''delete_very_old_completed'' emptyWorld))) = [False]"
proof -
  obtain r w1 where h:
    "addRuleFromPreset quietEnv ''delete_very_old_completed'' emptyWorld = (Some r, w1)"
    by (simp add: addRuleFromPreset_def TORBOX_RULE_PRESETS_def preset_def
          createRuleFromPreset_def quietEnv_def Let_def)
  from preset_rules_start_disabled
         [of _ _ quietEnv "''delete_very_old_completed''" emptyWorld r w1] h
  show ?thesis by (simp add: emptyWorld_def)
qed

text \<open>
  Claim C6. \<^verbatim>\<open>createCustomRule\<close> with the action \<^verbatim>\<open>reannounce_torrent\<close> and a scope
  other than \<^verbatim>\<open>'torrent'\<close> (a missing scope counts as \<^verbatim>\<open>'all'\<close>) throws the validation
  error and leaves the whole state as it was. \<^verbatim>\<open>updateRule\<close> on an existing rule, where
  the action and scope after the update would be \<^verbatim>\<open>reannounce_torrent\<close> with a scope
  other than \<^verbatim>\<open>'torrent'\<close>, changes neither the rule list nor the stored list.
\<close>

theorem reannounce_requires_torrent_scope:
  "(CustomRuleParams.action params = Reannounce_torrent
      \<and> CustomRuleParams.scope params \<noteq> Some (Only Torrent) \<longrightarrow>
      createCustomRule ev params w
        = (Inl (Error ''This action is not supported for the selected scope.''), w))
   \<and> (find (\<lambda>r. id' r = ruleId) (rules w) = Some existing
       \<and> (case RuleUpdates.action updates of None \<Rightarrow> action existing | Some a \<Rightarrow> a)
           = Reannounce_torrent
       \<and> (case RuleUpdates.scope updates of None \<Rightarrow> scopeOrAll (scope existing) | Some s \<Rightarrow> s)
           \<noteq> Only Torrent \<longrightarrow>
      rules (updateRule ev ruleId updates w) = rules w
      \<and> storedRules (updateRule ev ruleId updates w) = storedRules w)"
  by (auto simp: createCustomRule_def updateRule_def isActionSupportedForScope_def scopeOrAll_def
                 alert_def Let_def
           split: option.splits)

theorem reannounce_requires_torrent_scope_witness:
  "createCustomRule quietEnv reannounceWebParams (worldWith reannounceRule)
     = (Inl (Error ''This action is not supported for the selected scope.''), worldWith reannounceRule)
   \<and> rules (updateRule quietEnv ''r1'' scopeToWeb (worldWith reannounceRule)) = [reannounceRule]
   \<and> storedRules (updateRule quietEnv ''r1'' scopeToWeb (worldWith reannounceRule)) = [reannounceRule]"
  using reannounce_requires_torrent_scope
          [of reannounceWebParams quietEnv "worldWith reannounceRule" "''r1''" reannounceRule scopeToWeb]
  by (simp add: reannounceWebParams_def worldWith_def emptyWorld_def reannounceRule_def
        sampleRule_def scopeToWeb_def)

subsection \<open>Action executor\<close>

text \<open>
  Claim C10. For the actions \<^verbatim>\<open>request_download_link\<close> and \<^verbatim>\<open>create_stream\<close>, a target
  whose first file id is 0 is handled as a target without file ids: no call is made, the
  state is unchanged and the target is not counted as affected.
\<close>

theorem file_id_zero_is_skipped:
  "(action rule = Request_download_link \<or> action rule = Create_stream) \<and> fileIds tg = 0 # rest \<longrightarrow>
     performAction ev rule tg w = (Inr False, w)
     \<and> performAction ev rule (tg\<lparr>fileIds := []\<rparr>) w = (Inr False, w)"
  by (auto simp: performAction_def firstFileId_def)

theorem file_id_zero_is_skipped_witness:
  "performAction quietEnv (sampleRule\<lparr>action := Create_stream\<rparr>) (sampleTarget\<lparr>fileIds := [0, 9]\<rparr>) emptyWorld
     = (Inr False, emptyWorld)
   \<and> performAction quietEnv (sampleRule\<lparr>action := Create_stream\<rparr>) (sampleTarget\<lparr>fileIds := []\<rparr>) emptyWorld
     = (Inr False, emptyWorld)
   \<and> calls (snd (performAction quietEnv (sampleRule\<lparr>action := Create_stream\<rparr>) sampleTarget emptyWorld))
     = [GetStreamLink Torrent 1 7]"
  using file_id_zero_is_skipped
          [of "sampleRule\<lparr>action := Create_stream\<rparr>" "sampleTarget\<lparr>fileIds := [0, 9]\<rparr>" "[9]"
              quietEnv emptyWorld]
  by (simp add: sampleRule_def sampleTarget_def performAction_def firstFileId_def awaitCall_def
        callApi_def quietEnv_def emptyWorld_def)


lemma actionLoop_append:
  "actionLoop ev rule (xs @ ys) n w =
     (case actionLoop ev rule xs n w of
        (Inl e, w1) \<Rightarrow> (Inl e, w1)
      | (Inr n1, w1) \<Rightarrow> actionLoop ev rule ys n1 w1)"
  by (induction xs arbitrary: n w) (auto split: prod.splits sum.splits)

lemma performAction_callFor:
  "performAction ev rule t w =
     (case callFor rule t of
        Some c \<Rightarrow> awaitCall ev c w
      | None \<Rightarrow> (Inr (action rule = Notify_user), w))"
  by (simp add: performAction_def callFor_def
           split: TorBoxRuleAction.splits AutomationSource.splits option.splits)

lemma awaitCall_rejects:
  "api ev c = Some e \<Longrightarrow> awaitCall ev c w = (Inl e, w\<lparr>calls := calls w @ [c]\<rparr>)"
  by (simp add: awaitCall_def callApi_def)

lemma awaitCall_resolves:
  "api ev c = None \<Longrightarrow> awaitCall ev c w = (Inr True, w\<lparr>calls := calls w @ [c]\<rparr>)"
  by (simp add: awaitCall_def callApi_def)

lemma actionLoop_resolving:
  "allResolve ev rule pre \<Longrightarrow>
     \<exists>n1. actionLoop ev rule pre n w = (Inr n1, w\<lparr>calls := calls w @ callsFor rule pre\<rparr>)"
proof (induction pre arbitrary: n w)
  case Nil
  then show ?case by simp
next
  case (Cons t ts)
  show ?case
  proof (cases "callFor rule t")
    case None
    with Cons.prems have r: "allResolve ev rule ts" by (simp add: allResolve_def)
    from Cons.IH[OF r] None show ?thesis by (simp add: performAction_callFor)
  next
    case (Some c)
    with Cons.prems have r: "allResolve ev rule ts" and a: "api ev c = None"
      by (simp_all add: allResolve_def)
    from Cons.IH[OF r, of "n + 1" "w\<lparr>calls := calls w @ [c]\<rparr>"] Some a show ?thesis
      by (simp add: performAction_callFor awaitCall_resolves)
  qed
qed

text \<open>
  Claim C1, as stated, fails: the loop has no \<^verbatim>\<open>try\<close> around the awaited call. With two
  torrents to pause and a service that rejects the call for the first, \<^verbatim>\<open>executeAction\<close>
  throws after that one call; the second torrent is never attempted.
\<close>

theorem failed_call_skips_remaining_targets:
  "executeAction firstPauseFails pauseRule twoTorrents emptyWorld
     = (Inl (Error ''boom''), emptyWorld\<lparr>calls := [ControlTorrent 1 Pause]\<rparr>)"
  by (simp add: executeAction_def twoTorrents_def performAction_def pauseRule_def sampleRule_def
        sampleTarget_def awaitCall_def callApi_def firstPauseFails_def quietEnv_def emptyWorld_def)

text \<open>
  Claim C1, amended. When the service resolves the calls for the targets before \<open>tg\<close> and
  rejects the call \<open>c\<close> for \<open>tg\<close> with \<open>e\<close>, \<^verbatim>\<open>executeAction\<close> throws \<open>e\<close>. The calls made
  are those for the targets before \<open>tg\<close> and then \<open>c\<close>; nothing else of the state has
  changed, so no later target is attempted and no notification is appended.
\<close>

theorem failed_call_aborts_batch:
  "allResolve ev rule pre \<and> callFor rule tg = Some c \<and> api ev c = Some e \<longrightarrow>
     executeAction ev rule (pre @ tg # post) w
       = (Inl e, w\<lparr>calls := calls w @ callsFor rule pre @ [c]\<rparr>)"
proof
  assume h: "allResolve ev rule pre \<and> callFor rule tg = Some c \<and> api ev c = Some e"
  then obtain n1 where
    p: "actionLoop ev rule pre 0 w = (Inr n1, w\<lparr>calls := calls w @ callsFor rule pre\<rparr>)"
    using actionLoop_resolving[of ev rule pre 0 w] by blast
  from h have
    "performAction ev rule tg (w\<lparr>calls := calls w @ callsFor rule pre\<rparr>)
       = (Inl e, w\<lparr>calls := calls w @ callsFor rule pre @ [c]\<rparr>)"
    by (simp add: performAction_callFor awaitCall_rejects)
  with p show
    "executeAction ev rule (pre @ tg # post) w
       = (Inl e, w\<lparr>calls := calls w @ callsFor rule pre @ [c]\<rparr>)"
    by (simp add: executeAction_def actionLoop_append)
qed

theorem failed_call_aborts_batch_witness:
  "executeAction firstPauseFails pauseRule
     ([sampleTarget\<lparr>sourceId := 2\<rparr>] @ sampleTarget # [sampleTarget\<lparr>sourceId := 3\<rparr>]) emptyWorld
     = (Inl (Error ''boom''),
        emptyWorld\<lparr>calls := [ControlTorrent 2 Pause, ControlTorrent 1 Pause]\<rparr>)"
  using failed_call_aborts_batch
         [of firstPauseFails pauseRule "[sampleTarget\<lparr>sourceId := 2\<rparr>]" sampleTarget
             "ControlTorrent 1 Pause" "Error ''boom''" "[sampleTarget\<lparr>sourceId := 3\<rparr>]" emptyWorld]
  by (simp add: allResolve_def callFor_def pauseRule_def sampleRule_def sampleTarget_def
        firstPauseFails_def quietEnv_def emptyWorld_def)

subsection \<open>Scenario A\<close>

lemma scenario_A_numbers:
  "Number_str ''100'' = Fin 1 2"
  "toBinary64 4 (- 1) = Fin 40000000000000002220446049250313080847263336181640625 (- 53)"
  by code_simp+

text \<open>
  Claim C2. The rule of scenario A compares the target's progress, a fraction between 0
  and 1, with the number 100: neither the target with progress 1.0 nor the one with 0.4
  matches, the executor answers that nothing matched and appends no notification. A
  target whose progress were the percentage 100 would match.
\<close>

theorem scenario_A_matches_no_target:
  "map (matchesRule 100000 sampleRule) scenarioA_targets = [False, False]
   \<and> executeAction quietEnv sampleRule
        (filter (matchesRule 100000 sampleRule) scenarioA_targets) emptyWorld
       = (Inr ''No matching downloads found.'', emptyWorld)
   \<and> matchesRule 100000 sampleRule (sampleTarget\<lparr>progress := Fin 100 0\<rparr>)"
proof -
  have t: "trim ''100'' = ''100''" by code_simp
  have a: "\<not> matchesRule 100000 sampleRule sampleTarget"
    by (simp add: matchesRule_def sampleRule_def sampleTarget_def conditionHolds_def cond_def
          fieldMap_def compareValues_def scenario_A_numbers t isFinite_def isNum_def scaled_def)
  have b: "\<not> matchesRule 100000 sampleRule
               (sampleTarget\<lparr>sourceId := 2, progress := toBinary64 4 (- 1)\<rparr>)"
    by (simp add: matchesRule_def sampleRule_def sampleTarget_def conditionHolds_def cond_def
          fieldMap_def compareValues_def scenario_A_numbers t isFinite_def isNum_def scaled_def)
  have c: "matchesRule 100000 sampleRule (sampleTarget\<lparr>progress := Fin 100 0\<rparr>)"
    by (simp add: matchesRule_def sampleRule_def sampleTarget_def conditionHolds_def cond_def
          fieldMap_def compareValues_def scenario_A_numbers t isFinite_def isNum_def scaled_def)
  from a b c show ?thesis
    by (simp add: scenarioA_targets_def executeAction_def)
qed

subsection \<open>Scheduler\<close>



lemma runRule_enter_started:
  "runRule_enter ev rid ad w = (Some rule, w1) \<Longrightarrow>
     w1 = w\<lparr>runLock := insert rid (runLock w)\<rparr> \<and> rid \<notin> runLock w
     \<and> find (\<lambda>r. id' r = rid) (rules w) = Some rule"
  by (auto simp: runRule_enter_def split: if_splits option.splits)

lemma runRule_locked: "rid \<in> runLock w \<Longrightarrow> runRule ev rid tr ad w = w"
  by (simp add: runRule_def runRule_enter_def)

lemma runLock_settle: "rid \<notin> runLock (settle ev rs rule rid tr outcome)"
  by (simp add: settle_def Let_def)

lemma runLock_body: "rid \<notin> runLock (runRule_body ev rs rule rid tr w)"
  by (simp add: runRule_body_def runLock_settle)


lemma calls_settle: "calls (settle ev rs rule rid tr outcome) = calls (snd outcome)"
  by (cases outcome; cases "fst outcome"; cases tr)
     (simp_all add: settle_def Let_def persistRules_def alert_def)

lemma notifications_settle:
  "notifications (settle ev rs rule rid tr outcome) = notifications (snd outcome)"
  by (cases outcome; cases "fst outcome"; cases tr)
     (simp_all add: settle_def Let_def persistRules_def alert_def)

lemma fetchAndExecute_fails:
  "fetched ev = Inl e \<Longrightarrow>
     fetchAndExecute ev rule w = (Inl e, w\<lparr>calls := calls w @ [ToTargets]\<rparr>)"
  by (simp add: fetchAndExecute_def Let_def)

lemma fetchAndExecute_fetched:
  "fetched ev = Inr ts \<Longrightarrow>
     fetchAndExecute ev rule w
       = executeAction ev rule (filter (matchesRule (now ev) rule) ts)
           (w\<lparr>calls := calls w @ [ToTargets]\<rparr>)"
  by (simp add: fetchAndExecute_def Let_def)











lemma itemsText_two: "itemsText (Suc (Suc 0)) = ''2 items.''"
proof -
  have "itemsText 2 = ''2 items.''" by code_simp
  then show ?thesis by (simp add: numeral_2_eq_2)
qed

lemma started_run:
  assumes "runRule_enter ev ruleId allowDisabled w = (Some rule, w1)"
  shows "runRule ev ruleId tr allowDisabled w = runRule_body ev (rules w) rule ruleId tr w1"
  using assms by (simp add: runRule_def)




lemma runNow_locked:
  "rid \<in> runLock w \<Longrightarrow>
     runNow ev rid w = w
     \<or> runNow ev rid w = alert ''Throttled'' ''Please wait at least 30 seconds between manual runs.'' w"
  by (auto simp: runNow_def runRule_locked split: option.splits)

lemma runLock_awaitCall: "runLock (snd (awaitCall ev c w)) = runLock w"
  by (simp add: awaitCall_def callApi_def split: option.splits)

lemma runLock_performAction: "runLock (snd (performAction ev rule tg w)) = runLock w"
  by (simp add: performAction_callFor runLock_awaitCall split: option.splits)

lemma runLock_actionLoop: "runLock (snd (actionLoop ev rule ts n w)) = runLock w"
proof (induction ts arbitrary: n w)
  case Nil
  then show ?case by simp
next
  case (Cons tg ts)
  obtain res w1 where p: "performAction ev rule tg w = (res, w1)" by (cases "performAction ev rule tg w")
  from runLock_performAction[of ev rule tg w] p have l: "runLock w1 = runLock w" by simp
  show ?case
  proof (cases res)
    case (Inl e)
    with p l show ?thesis by simp
  next
    case (Inr counted)
    from Cons.IH[of "if counted then n + 1 else n" w1] p l Inr show ?thesis by simp
  qed
qed

lemma runLock_appendAppNotification:
  "runLock (snd (appendAppNotification ev t m w)) = runLock w"
  by (simp add: appendAppNotification_def Let_def split: option.splits)

lemma runLock_executeAction: "runLock (snd (executeAction ev rule ts w)) = runLock w"
proof (cases "ts = []")
  case True
  then show ?thesis by (simp add: executeAction_def)
next
  case False
  obtain res w1 where l: "actionLoop ev rule ts 0 w = (res, w1)"
    by (cases "actionLoop ev rule ts 0 w")
  from runLock_actionLoop[of ev rule ts 0 w] l have c: "runLock w1 = runLock w" by simp
  show ?thesis
  proof (cases res)
    case (Inl e)
    with False l c show ?thesis by (simp add: executeAction_def)
  next
    case (Inr k)
    show ?thesis
    proof (cases "k > 0")
      case z: False
      with False l c Inr show ?thesis by (simp add: executeAction_def)
    next
      case True
      obtain res2 w2 where a: "appendAppNotification ev ''Automation ran''
           (name rule @ '' processed '' @ itemsText k) w1 = (res2, w2)"
        by (cases "appendAppNotification ev ''Automation ran''
           (name rule @ '' processed '' @ itemsText k) w1")
      from runLock_appendAppNotification
             [of ev "''Automation ran''" "name rule @ '' processed '' @ itemsText k" w1] a
      have c2: "runLock w2 = runLock w1" by simp
      have "snd (executeAction ev rule ts w) = w2"
        using False l Inr True a by (cases res2) (simp_all add: executeAction_def)
      with c c2 show ?thesis by simp
    qed
  qed
qed

lemma runLock_fetchAndExecute: "runLock (snd (fetchAndExecute ev rule w)) = runLock w"
  by (cases "fetched ev") (simp_all add: fetchAndExecute_def Let_def runLock_executeAction)

text \<open>
  Claim C7. While the rule's id is in the run-lock set, \<^verbatim>\<open>runRule\<close> returns at once for
  any trigger and leaves the whole state as it is, and \<^verbatim>\<open>runNow\<close> makes no remote call
  and changes neither the rules, the notifications nor the lock. Once a run has entered
  (the guards passed and the id was added to the set), a second trigger on that state is
  such a no-op, so the first run's body followed from there gives exactly the state of a
  single run. That state is the one reached by requesting the snapshot once and, when
  it is fetched, invoking \<^verbatim>\<open>executeAction\<close> once on the matching targets, followed by
  the bookkeeping of the run; when the fetch throws, the executor is not invoked. The id
  is still in the set when the fetch and the executor are done, and the body removes it
  from the set whatever the two do.
\<close>

theorem run_lock_is_exclusive:
  "(ruleId \<in> runLock w \<longrightarrow>
      runRule ev ruleId tr allowDisabled w = w
      \<and> calls (runNow ev ruleId w) = calls w
      \<and> rules (runNow ev ruleId w) = rules w
      \<and> notifications (runNow ev ruleId w) = notifications w
      \<and> runLock (runNow ev ruleId w) = runLock w)
   \<and> (runRule_enter ev ruleId allowDisabled w = (Some rule, w1) \<longrightarrow>
        ruleId \<in> runLock w1
        \<and> runRule ev2 ruleId tr2 allowDisabled2 w1 = w1
        \<and> runRule_body ev (rules w) rule ruleId tr (runRule ev2 ruleId tr2 allowDisabled2 w1)
            = runRule ev ruleId tr allowDisabled w
        \<and> (fetched ev = Inr ts \<longrightarrow>
             runRule_body ev (rules w) rule ruleId tr (runRule ev2 ruleId tr2 allowDisabled2 w1)
               = settle ev (rules w) rule ruleId tr
                   (executeAction ev rule (filter (matchesRule (now ev) rule) ts)
                      (w\<lparr>runLock := insert ruleId (runLock w), calls := calls w @ [ToTargets]\<rparr>)))
        \<and> (fetched ev = Inl e \<longrightarrow>
             runRule_body ev (rules w) rule ruleId tr (runRule ev2 ruleId tr2 allowDisabled2 w1)
               = settle ev (rules w) rule ruleId tr
                   (Inl e, w\<lparr>runLock := insert ruleId (runLock w), calls := calls w @ [ToTargets]\<rparr>))
        \<and> ruleId \<in> runLock (snd (fetchAndExecute ev rule w1)))
   \<and> ruleId \<notin> runLock (runRule_body ev3 rs rule3 ruleId tr3 w3)"
proof -
  have a: "ruleId \<in> runLock w \<longrightarrow>
      runRule ev ruleId tr allowDisabled w = w
      \<and> calls (runNow ev ruleId w) = calls w
      \<and> rules (runNow ev ruleId w) = rules w
      \<and> notifications (runNow ev ruleId w) = notifications w
      \<and> runLock (runNow ev ruleId w) = runLock w"
    using runNow_locked[of ruleId w ev] by (auto simp: runRule_locked alert_def)
  have b: "runRule_enter ev ruleId allowDisabled w = (Some rule, w1) \<longrightarrow>
        ruleId \<in> runLock w1
        \<and> runRule ev2 ruleId tr2 allowDisabled2 w1 = w1
        \<and> runRule_body ev (rules w) rule ruleId tr (runRule ev2 ruleId tr2 allowDisabled2 w1)
            = runRule ev ruleId tr allowDisabled w
        \<and> (fetched ev = Inr ts \<longrightarrow>
             runRule_body ev (rules w) rule ruleId tr (runRule ev2 ruleId tr2 allowDisabled2 w1)
               = settle ev (rules w) rule ruleId tr
                   (executeAction ev rule (filter (matchesRule (now ev) rule) ts)
                      (w\<lparr>runLock := insert ruleId (runLock w), calls := calls w @ [ToTargets]\<rparr>)))
        \<and> (fetched ev = Inl e \<longrightarrow>
             runRule_body ev (rules w) rule ruleId tr (runRule ev2 ruleId tr2 allowDisabled2 w1)
               = settle ev (rules w) rule ruleId tr
                   (Inl e, w\<lparr>runLock := insert ruleId (runLock w), calls := calls w @ [ToTargets]\<rparr>))
        \<and> ruleId \<in> runLock (snd (fetchAndExecute ev rule w1))"
  proof
    assume h: "runRule_enter ev ruleId allowDisabled w = (Some rule, w1)"
    from runRule_enter_started[OF h] have l: "ruleId \<in> runLock w1"
      and w1: "w1 = w\<lparr>runLock := insert ruleId (runLock w)\<rparr>" by simp_all
    have s: "runRule ev2 ruleId tr2 allowDisabled2 w1 = w1" by (rule runRule_locked[OF l])
    have r: "runRule ev ruleId tr allowDisabled w = runRule_body ev (rules w) rule ruleId tr w1"
      by (rule started_run[OF h])
    have x: "fetched ev = Inr ts \<longrightarrow>
             runRule_body ev (rules w) rule ruleId tr w1
               = settle ev (rules w) rule ruleId tr
                   (executeAction ev rule (filter (matchesRule (now ev) rule) ts)
                      (w\<lparr>runLock := insert ruleId (runLock w), calls := calls w @ [ToTargets]\<rparr>))"
      by (simp add: runRule_body_def fetchAndExecute_fetched w1)
    have y: "fetched ev = Inl e \<longrightarrow>
             runRule_body ev (rules w) rule ruleId tr w1
               = settle ev (rules w) rule ruleId tr
                   (Inl e, w\<lparr>runLock := insert ruleId (runLock w), calls := calls w @ [ToTargets]\<rparr>)"
      by (simp add: runRule_body_def fetchAndExecute_fails w1)
    have k: "ruleId \<in> runLock (snd (fetchAndExecute ev rule w1))"
      using l by (simp add: runLock_fetchAndExecute)
    show "ruleId \<in> runLock w1
        \<and> runRule ev2 ruleId tr2 allowDisabled2 w1 = w1
        \<and> runRule_body ev (rules w) rule ruleId tr (runRule ev2 ruleId tr2 allowDisabled2 w1)
            = runRule ev ruleId tr allowDisabled w
        \<and> (fetched ev = Inr ts \<longrightarrow>
             runRule_body ev (rules w) rule ruleId tr (runRule ev2 ruleId tr2 allowDisabled2 w1)
               = settle ev (rules w) rule ruleId tr
                   (executeAction ev rule (filter (matchesRule (now ev) rule) ts)
                      (w\<lparr>runLock := insert ruleId (runLock w), calls := calls w @ [ToTargets]\<rparr>)))
        \<and> (fetched ev = Inl e \<longrightarrow>
             runRule_body ev (rules w) rule ruleId tr (runRule ev2 ruleId tr2 allowDisabled2 w1)
               = settle ev (rules w) rule ruleId tr
                   (Inl e, w\<lparr>runLock := insert ruleId (runLock w), calls := calls w @ [ToTargets]\<rparr>))
        \<and> ruleId \<in> runLock (snd (fetchAndExecute ev rule w1))"
      unfolding s r by (intro conjI l refl x y k)
  qed
  show ?thesis by (intro conjI a b runLock_body)
qed

lemma pause_two_torrents:
  "executeAction twoTorrentsFetched pauseRule twoTorrents w
     = (Inr ''Processed 2 items.'',
        w\<lparr>calls := calls w @ [ControlTorrent 1 Pause, ControlTorrent 2 Pause],
          notifications :=
            take MAX_NOTIFICATIONS
              (\<lparr>TorBoxNotification.id' = ''local-100000-k3x9ab'', title = ''Automation ran'',
                message = ''Pause all processed 2 items.'',
                TorBoxNotification.createdAt = 100000, read = False\<rparr> # notifications w)\<rparr>)"
proof -
  have s: "string_of_int 100000 = ''100000''" by code_simp
  show ?thesis
    by (simp add: executeAction_def twoTorrents_def performAction_def pauseRule_def sampleRule_def
          sampleTarget_def awaitCall_def callApi_def twoTorrentsFetched_def quietEnv_def
          appendAppNotification_def itemsText_two s Let_def)
qed

lemma pause_matches_all:
  "filter (matchesRule t pauseRule) ts = ts" "filter (matchesRule t (pauseRule\<lparr>enabled := True\<rparr>)) ts = ts"
  by (simp_all add: matchesRule_def pauseRule_def sampleRule_def)

theorem run_lock_is_exclusive_witness:
  "runRule fetchFails ''r1'' Manual True (worldWith enabledRule\<lparr>runLock := {''r1''}\<rparr>)
      = worldWith enabledRule\<lparr>runLock := {''r1''}\<rparr>
   \<and> calls (runNow quietEnv ''r1'' (worldWith enabledRule\<lparr>runLock := {''r1''}\<rparr>)) = []
   \<and> runLock (snd (runRule_enter twoTorrentsFetched ''r1'' True (worldWith pauseRule))) = {''r1''}
   \<and> calls (runRule_body twoTorrentsFetched [pauseRule] pauseRule ''r1'' Poll
        (runRule quietEnv ''r1'' Manual True
           (snd (runRule_enter twoTorrentsFetched ''r1'' True (worldWith pauseRule)))))
       = [ToTargets, ControlTorrent 1 Pause, ControlTorrent 2 Pause]
   \<and> map message (notifications (runRule_body twoTorrentsFetched [pauseRule] pauseRule ''r1'' Poll
        (runRule quietEnv ''r1'' Manual True
           (snd (runRule_enter twoTorrentsFetched ''r1'' True (worldWith pauseRule))))))
       = [''Pause all processed 2 items.'']
   \<and> ''r1'' \<notin> runLock (runRule twoTorrentsFetched ''r1'' Poll True (worldWith pauseRule))"
proof -
  have l: "''r1'' \<in> runLock (worldWith enabledRule\<lparr>runLock := {''r1''}\<rparr>)" by simp
  obtain w1 where h:
    "runRule_enter twoTorrentsFetched ''r1'' True (worldWith pauseRule) = (Some pauseRule, w1)"
    by (simp add: runRule_enter_def worldWith_def emptyWorld_def pauseRule_def sampleRule_def
          isActionSupportedForScope_def)
  have r: "rules (worldWith pauseRule) = [pauseRule]" by (simp add: worldWith_def)
  have t: "fetched twoTorrentsFetched = Inr twoTorrents" by (simp add: twoTorrentsFetched_def)
  note T = run_lock_is_exclusive
  from T[of "''r1''" "worldWith enabledRule\<lparr>runLock := {''r1''}\<rparr>" fetchFails Manual True,
         THEN conjunct1, THEN mp, OF l, THEN conjunct1]
  have p1: "runRule fetchFails ''r1'' Manual True (worldWith enabledRule\<lparr>runLock := {''r1''}\<rparr>)
      = worldWith enabledRule\<lparr>runLock := {''r1''}\<rparr>" .
  from T[of "''r1''" "worldWith enabledRule\<lparr>runLock := {''r1''}\<rparr>" quietEnv Manual True,
         THEN conjunct1, THEN mp, OF l, THEN conjunct2, THEN conjunct1]
  have p2: "calls (runNow quietEnv ''r1'' (worldWith enabledRule\<lparr>runLock := {''r1''}\<rparr>)) = []"
    by (simp add: worldWith_def emptyWorld_def)
  note B = T[where ruleId = "''r1''" and w = "worldWith pauseRule" and ev = twoTorrentsFetched
               and tr = Poll and allowDisabled = True and rule = pauseRule and ?w1.0 = w1
               and ?ev2.0 = quietEnv and ?tr2.0 = Manual and ?allowDisabled2.0 = True
               and ts = twoTorrents,
             THEN conjunct2, THEN conjunct1, THEN mp, OF h]
  from B[THEN conjunct1] runRule_enter_started[OF h]
  have p3: "runLock w1 = {''r1''}" by (simp add: worldWith_def emptyWorld_def)
  from B[THEN conjunct2, THEN conjunct2, THEN conjunct2, THEN conjunct1, THEN mp, OF t]
  have e: "runRule_body twoTorrentsFetched [pauseRule] pauseRule ''r1'' Poll
             (runRule quietEnv ''r1'' Manual True w1)
           = settle twoTorrentsFetched [pauseRule] pauseRule ''r1'' Poll
               (executeAction twoTorrentsFetched pauseRule twoTorrents
                  (worldWith pauseRule\<lparr>runLock := insert ''r1'' (runLock (worldWith pauseRule)),
                     calls := calls (worldWith pauseRule) @ [ToTargets]\<rparr>))"
    by (simp add: r pause_matches_all)
  have p4: "calls (runRule_body twoTorrentsFetched [pauseRule] pauseRule ''r1'' Poll
             (runRule quietEnv ''r1'' Manual True w1))
           = [ToTargets, ControlTorrent 1 Pause, ControlTorrent 2 Pause]"
    unfolding e by (simp add: calls_settle pause_two_torrents worldWith_def emptyWorld_def)
  have p5: "map message (notifications (runRule_body twoTorrentsFetched [pauseRule] pauseRule ''r1'' Poll
             (runRule quietEnv ''r1'' Manual True w1)))
           = [''Pause all processed 2 items.'']"
    unfolding e
    by (simp add: notifications_settle pause_two_torrents worldWith_def emptyWorld_def
          MAX_NOTIFICATIONS_def)
  from T[where ruleId = "''r1''" and ?ev3.0 = twoTorrentsFetched and rs = "[pauseRule]"
           and ?rule3.0 = pauseRule and ?tr3.0 = Poll and ?w3.0 = w1,
         THEN conjunct2, THEN conjunct2]
  have p6: "''r1'' \<notin> runLock (runRule twoTorrentsFetched ''r1'' Poll True (worldWith pauseRule))"
    unfolding started_run[OF h] r .
  from h have s: "snd (runRule_enter twoTorrentsFetched ''r1'' True (worldWith pauseRule)) = w1"
    by simp
  show ?thesis unfolding s by (intro conjI p1 p2 p3 p4 p5 p6)
qed




end
